theory Spec2Isabelle
  imports Main
begin

text \<open>
  The content script of the YouTube Detox extension (\<open>src/chrome/content.js\<close>): the
  shorts blocker, the remover of the navigation buttons, the scroll preventer, the
  controller with its page pass, the debounced re-run and the mutation filter. Classes
  are records, methods are functions from the state before to the state after, and
  the part of the browser they touch (nodes, URL, console, listeners, timers) is state
  as well. Elements are known by identity, as in the WeakSets of the source. An
  exception is a value: a function that can throw returns either the error with the
  state it had reached, or its result.
\<close>

section \<open>Constants and configuration (content.js, lines 10-53)\<close>

definition SHORTS_CONTAINERS :: "string list" where
  "SHORTS_CONTAINERS =
     [''[is-shorts]'',
      ''ytd-shorts'',
      ''ytd-reel-video-renderer'',
      ''ytd-reel-shelf-renderer'',
      ''[aria-label*=\"Shorts\"]'',
      ''[aria-label*=\"shorts\"]'',
      ''ytd-rich-shelf-renderer[is-shorts]'',
      ''ytd-rich-item-renderer:has([aria-label*=\"Shorts\"])'']"

definition OVERLAY_CLASS :: string where
  "OVERLAY_CLASS = ''yt-detox-overlay''"

definition DEBOUNCE_DELAY :: nat where
  "DEBOUNCE_DELAY = 1000"

definition ELEMENT_NODE :: nat where
  "ELEMENT_NODE = 1"

definition DOCUMENT_NODE :: nat where
  "DOCUMENT_NODE = 9"

definition DOCUMENT_FRAGMENT_NODE :: nat where
  "DOCUMENT_FRAGMENT_NODE = 11"

section \<open>The browser side: document, window, console\<close>

text \<open>
  The exceptions the DOM calls of the content script can raise.
\<close>

datatype error = SyntaxError | HierarchyRequestError | NotFoundError

text \<open>
  A DOM node, addressed by identity (a number). Only what the content script reads or
  writes is kept: the node type, the class name, the attributes, the inline
  \<open>style.display\<close>, the parent and the children in document order.
\<close>

record node =
  nodeType :: nat
  className :: string
  attributes :: "(string \<times> string) list"
  style_display :: string
  parentNode :: "nat option"
  childNodes :: "nat list"

type_synonym store = "nat \<Rightarrow> node option"

text \<open>
  The page: the node store with its allocator, \<open>window.location.href\<close>, the console,
  the selector engine behind \<open>querySelectorAll\<close> (a parameter: \<open>None\<close> is a selector
  the browser cannot parse), the click listeners of the overlays' toggle buttons
  (overlay, shorts element), the inline \<open>overflow\<close> of \<open>document.body\<close> and the
  listeners of \<open>document\<close> and \<open>window\<close>.
\<close>

datatype event_target = Document | Window

datatype handler = PreventWheel | PreventKeys

type_synonym listener = "event_target \<times> string \<times> handler \<times> bool"

record page =
  nodes :: store
  fresh :: nat
  href :: string
  console :: "string list"
  engine :: "string \<Rightarrow> store \<Rightarrow> nat list option"
  clickHandlers :: "(nat \<times> nat) list"
  bodyOverflow :: string
  listeners :: "listener list"

subsection \<open>Strings and the URL patterns (lines 39-42, 115-121)\<close>

fun startsWith :: "string \<Rightarrow> string \<Rightarrow> bool" where
  "startsWith s [] = True"
| "startsWith [] (p # ps) = False"
| "startsWith (c # cs) (p # ps) = (c = p \<and> startsWith cs ps)"

fun str_includes :: "string \<Rightarrow> string \<Rightarrow> bool" where
  "str_includes [] pat = (pat = [])"
| "str_includes (c # cs) pat = (startsWith (c # cs) pat \<or> str_includes cs pat)"

text \<open>\<open>URL_PATTERNS.SHORTS_PAGE.test(url)\<close>: the unanchored pattern \<open>/shorts/\<close>.\<close>

definition isShortsPage :: "string \<Rightarrow> bool" where
  "isShortsPage url = str_includes url ''/shorts/''"

text \<open>
  \<open>URL_PATTERNS.HOMEPAGE\<close> is \<open>^https?://(www\.)?youtube\.com/?(\?.*)?$\<close>. Each optional
  part is followed by a literal that starts with another character, so taking the
  optional part whenever it is there is the only way to match.
\<close>

definition skip :: "string \<Rightarrow> string \<Rightarrow> string" where
  "skip p s = (if startsWith s p then drop (length p) s else s)"

definition lineTerminator :: "char \<Rightarrow> bool" where
  "lineTerminator c = (c = CHR 0x0A \<or> c = CHR 0x0D)"

definition isHomePage :: "string \<Rightarrow> bool" where
  "isHomePage url =
     (if \<not> startsWith url ''http'' then False
      else let r1 = skip ''s'' (drop 4 url) in
        if \<not> startsWith r1 ''://'' then False
        else let r2 = skip ''www.'' (drop 3 r1) in
          if \<not> startsWith r2 ''youtube.com'' then False
          else let r3 = skip ''/'' (drop 11 r2) in
            (case r3 of
               [] \<Rightarrow> True
             | c # query \<Rightarrow> c = CHR ''?'' \<and> \<not> list_ex lineTerminator query))"

subsection \<open>Console and DOM operations\<close>

text \<open>\<open>console.log\<close>, \<open>console.warn\<close> and \<open>console.error\<close> append a line to the console.\<close>

definition console_log :: "string \<Rightarrow> page \<Rightarrow> page" where
  "console_log msg pg = pg\<lparr>console := console pg @ [msg]\<rparr>"

definition console_warn :: "string \<Rightarrow> page \<Rightarrow> page" where
  "console_warn msg pg = pg\<lparr>console := console pg @ [msg]\<rparr>"

definition console_error :: "string \<Rightarrow> page \<Rightarrow> page" where
  "console_error msg pg = pg\<lparr>console := console pg @ [msg]\<rparr>"

definition set_display :: "nat \<Rightarrow> string \<Rightarrow> page \<Rightarrow> page" where
  "set_display e v pg =
     (case nodes pg e of
        None \<Rightarrow> pg
      | Some n \<Rightarrow> pg\<lparr>nodes := (nodes pg)(e \<mapsto> n\<lparr>style_display := v\<rparr>)\<rparr>)"

definition parentOf :: "store \<Rightarrow> nat \<Rightarrow> nat option" where
  "parentOf st e = (case st e of None \<Rightarrow> None | Some n \<Rightarrow> parentNode n)"

fun after :: "nat \<Rightarrow> nat list \<Rightarrow> nat option" where
  "after e [] = None"
| "after e [c] = None"
| "after e (c # d # cs) = (if c = e then Some d else after e (d # cs))"

definition nextSibling :: "store \<Rightarrow> nat \<Rightarrow> nat option" where
  "nextSibling st e =
     (case parentOf st e of
        None \<Rightarrow> None
      | Some p \<Rightarrow> (case st p of None \<Rightarrow> None | Some pn \<Rightarrow> after e (childNodes pn)))"

fun insert_before :: "nat \<Rightarrow> nat \<Rightarrow> nat list \<Rightarrow> nat list" where
  "insert_before new r [] = [new]"
| "insert_before new r (c # cs) = (if c = r then new # c # cs else c # insert_before new r cs)"

definition isElement :: "store \<Rightarrow> nat \<Rightarrow> bool" where
  "isElement st c = (case st c of None \<Rightarrow> False | Some n \<Rightarrow> nodeType n = ELEMENT_NODE)"

text \<open>
  \<open>parent.insertBefore(new, ref)\<close> for a new element that has no parent yet. The DOM
  refuses it with HierarchyRequestError when the parent cannot hold children or is a
  document that already has an element child, and with NotFoundError when \<open>ref\<close> is
  not a child of the parent; with \<open>ref = null\<close> the node is appended.
\<close>

definition insertBefore :: "nat \<Rightarrow> nat \<Rightarrow> nat option \<Rightarrow> store \<Rightarrow> error + store" where
  "insertBefore p new r st =
     (case st p of
        None \<Rightarrow> Inl HierarchyRequestError
      | Some pn \<Rightarrow>
          if nodeType pn \<noteq> ELEMENT_NODE \<and> nodeType pn \<noteq> DOCUMENT_NODE
             \<and> nodeType pn \<noteq> DOCUMENT_FRAGMENT_NODE
          then Inl HierarchyRequestError
          else if (case r of None \<Rightarrow> False | Some c \<Rightarrow> c \<notin> set (childNodes pn))
          then Inl NotFoundError
          else if nodeType pn = DOCUMENT_NODE \<and> list_ex (isElement st) (childNodes pn)
          then Inl HierarchyRequestError
          else
            let kids = (case r of
                          None \<Rightarrow> childNodes pn @ [new]
                        | Some c \<Rightarrow> insert_before new c (childNodes pn));
                st1 = st(p \<mapsto> pn\<lparr>childNodes := kids\<rparr>)
            in Inr (case st1 new of
                      None \<Rightarrow> st1
                    | Some nn \<Rightarrow> st1(new \<mapsto> nn\<lparr>parentNode := Some p\<rparr>)))"

section \<open>ShortsBlocker (lines 136-259)\<close>

record ShortsBlocker =
  hiddenShorts :: "nat set"
  sessionVisible :: "nat set"

definition new_ShortsBlocker :: ShortsBlocker where
  "new_ShortsBlocker = \<lparr>hiddenShorts = {}, sessionVisible = {}\<rparr>"

text \<open>
  \<open>createOverlay\<close>: a new \<open>div\<close> with the overlay class and the marking attribute, not
  yet in the document, and a click listener on its toggle button that calls
  \<open>toggleShortVisibility(shortsElement, overlay)\<close>. The markup inside the overlay is
  not kept as nodes: the button is reached through its overlay.
\<close>

definition createOverlay :: "nat \<Rightarrow> page \<Rightarrow> nat \<times> page" where
  "createOverlay shortsElement pg =
     (let overlay = fresh pg;
          n = \<lparr>nodeType = ELEMENT_NODE, className = OVERLAY_CLASS,
               attributes = [(''data-yt-detox'', ''shorts-overlay'')],
               style_display = '''', parentNode = None, childNodes = []\<rparr>
      in (overlay,
          pg\<lparr>nodes := (nodes pg)(overlay \<mapsto> n),
             fresh := Suc (fresh pg),
             clickHandlers := clickHandlers pg @ [(overlay, shortsElement)]\<rparr>))"

definition toggleShortVisibility ::
    "nat \<Rightarrow> nat \<Rightarrow> ShortsBlocker \<times> page \<Rightarrow> ShortsBlocker \<times> page" where
  "toggleShortVisibility shortsElement overlay s =
     (case s of (sb, pg) \<Rightarrow>
        if shortsElement \<in> sessionVisible sb
        then (sb\<lparr>sessionVisible := sessionVisible sb - {shortsElement}\<rparr>,
              set_display overlay ''flex'' (set_display shortsElement ''none'' pg))
        else (sb\<lparr>sessionVisible := insert shortsElement (sessionVisible sb)\<rparr>,
              set_display overlay ''none'' (set_display shortsElement '''' pg)))"

definition hideShort :: "nat \<Rightarrow> ShortsBlocker \<times> page \<Rightarrow> ShortsBlocker \<times> page" where
  "hideShort shortsElement s =
     (case s of (sb, pg) \<Rightarrow>
        if shortsElement \<in> hiddenShorts sb then (sb, pg)
        else if shortsElement \<in> sessionVisible sb then (sb, pg)
        else
          (case createOverlay shortsElement pg of (overlay, pg1) \<Rightarrow>
             (case parentOf (nodes pg1) shortsElement of
                None \<Rightarrow> (sb, pg1)
              | Some p \<Rightarrow>
                  (case insertBefore p overlay (nextSibling (nodes pg1) shortsElement) (nodes pg1) of
                     Inl err \<Rightarrow> (sb, console_error ''[YT Detox] Error hiding short:'' pg1)
                   | Inr st \<Rightarrow>
                       (sb\<lparr>hiddenShorts := insert shortsElement (hiddenShorts sb)\<rparr>,
                        set_display shortsElement ''none'' (pg1\<lparr>nodes := st\<rparr>))))))"

definition resetSession :: "ShortsBlocker \<Rightarrow> ShortsBlocker" where
  "resetSession sb = sb\<lparr>sessionVisible := {}\<rparr>"

subsection \<open>Finding the shorts (lines 106-113, 146-156)\<close>

text \<open>
  \<open>document.querySelectorAll(selector)\<close>. The DOM standard parses the selector first
  and throws SyntaxError when that fails; the empty string is not a selector list, so
  it fails in every browser. Every other selector is the engine's to accept or refuse.
\<close>

definition querySelectorAll :: "string \<Rightarrow> page \<Rightarrow> error + nat list" where
  "querySelectorAll selector pg =
     (if selector = [] then Inl SyntaxError
      else case engine pg selector (nodes pg) of
             None \<Rightarrow> Inl SyntaxError
           | Some els \<Rightarrow> Inr els)"

text \<open>
  \<open>safeQuerySelectorAll\<close>: the \<open>catch\<close> block warns and then returns
  \<open>document.querySelectorAll('')\<close>, which is a call like the first one and can throw
  out of the handler.
\<close>

definition safeQuerySelectorAll :: "string \<Rightarrow> page \<Rightarrow> (error \<times> page) + (nat list \<times> page)" where
  "safeQuerySelectorAll selector pg =
     (case querySelectorAll selector pg of
        Inr els \<Rightarrow> Inr (els, pg)
      | Inl err \<Rightarrow>
          (let pg1 = console_warn (''[YT Detox] Invalid selector: '' @ selector) pg
           in case querySelectorAll [] pg1 of
                Inr els \<Rightarrow> Inr (els, pg1)
              | Inl err2 \<Rightarrow> Inl (err2, pg1)))"

text \<open>The loop of \<open>findShortsElements\<close> over the selectors, pushing onto \<open>allShorts\<close>.\<close>

fun collectShorts :: "string list \<Rightarrow> nat list \<Rightarrow> page \<Rightarrow> (error \<times> page) + (nat list \<times> page)" where
  "collectShorts [] allShorts pg = Inr (allShorts, pg)"
| "collectShorts (selector # rest) allShorts pg =
     (case safeQuerySelectorAll selector pg of
        Inl x \<Rightarrow> Inl x
      | Inr r \<Rightarrow> collectShorts rest (allShorts @ fst r) (snd r))"

text \<open>
  \<open>[...new Set(allShorts)]\<close>: a Set keeps its members in insertion order and ignores
  the insertion of a member it already has.
\<close>

fun new_Set :: "nat list \<Rightarrow> nat list \<Rightarrow> nat list" where
  "new_Set members [] = members"
| "new_Set members (x # xs) = new_Set (if x \<in> set members then members else members @ [x]) xs"

definition findShortsElements :: "page \<Rightarrow> (error \<times> page) + (nat list \<times> page)" where
  "findShortsElements pg =
     (case collectShorts SHORTS_CONTAINERS [] pg of
        Inl x \<Rightarrow> Inl x
      | Inr r \<Rightarrow> Inr (new_Set [] (fst r), snd r))"

definition processShorts ::
    "ShortsBlocker \<times> page \<Rightarrow> (error \<times> ShortsBlocker \<times> page) + (ShortsBlocker \<times> page)" where
  "processShorts s =
     (case s of (sb, pg) \<Rightarrow>
        if isShortsPage (href pg) then Inr (sb, pg)
        else (case findShortsElements pg of
                Inl x \<Rightarrow> Inl (fst x, sb, snd x)
              | Inr r \<Rightarrow> Inr (fold hideShort (fst r) (sb, snd r))))"

section \<open>NavigationButtonRemover (lines 265-310)\<close>

record NavigationButtonRemover =
  removedButtons :: "nat set"

definition new_NavigationButtonRemover :: NavigationButtonRemover where
  "new_NavigationButtonRemover = \<lparr>removedButtons = {}\<rparr>"

definition navigationSelectors :: "string list" where
  "navigationSelectors =
     [''button[aria-label*=\"Go to next video\"]'',
      ''button[aria-label*=\"Go to previous video\"]'',
      ''button[aria-label*=\"Next video\"]'',
      ''button[aria-label*=\"Previous video\"]'',
      ''.navigation-button'',
      ''.shorts-navigation-button'',
      ''[data-title-no-tooltip*=\"Next\"]'',
      ''[data-title-no-tooltip*=\"Previous\"]'',
      ''button[title*=\"Next\"]'',
      ''button[title*=\"Previous\"]'',
      ''.ytp-button.ytp-next-button'',
      ''.ytp-button.ytp-prev-button'']"

definition hideButton ::
    "nat \<Rightarrow> NavigationButtonRemover \<times> page \<Rightarrow> NavigationButtonRemover \<times> page" where
  "hideButton button s =
     (case s of (nr, pg) \<Rightarrow>
        if button \<notin> removedButtons nr
        then (nr\<lparr>removedButtons := insert button (removedButtons nr)\<rparr>,
              set_display button ''none'' pg)
        else (nr, pg))"

fun removeEach :: "string list \<Rightarrow> NavigationButtonRemover \<times> page \<Rightarrow>
    (error \<times> NavigationButtonRemover \<times> page) + (NavigationButtonRemover \<times> page)" where
  "removeEach [] s = Inr s"
| "removeEach (selector # rest) s =
     (case safeQuerySelectorAll selector (snd s) of
        Inl x \<Rightarrow> Inl (fst x, fst s, snd x)
      | Inr r \<Rightarrow> removeEach rest (fold hideButton (fst r) (fst s, snd r)))"

definition removeNavigationButtons :: "NavigationButtonRemover \<times> page \<Rightarrow>
    (error \<times> NavigationButtonRemover \<times> page) + (NavigationButtonRemover \<times> page)" where
  "removeNavigationButtons s =
     (if \<not> isShortsPage (href (snd s)) then Inr s else removeEach navigationSelectors s)"

definition reset :: "NavigationButtonRemover \<Rightarrow> NavigationButtonRemover" where
  "reset nr = nr\<lparr>removedButtons := {}\<rparr>"

section \<open>ScrollPreventer (lines 316-400)\<close>

record ScrollPreventer =
  isActive :: bool
  originalOverflow :: string

definition new_ScrollPreventer :: ScrollPreventer where
  "new_ScrollPreventer = \<lparr>isActive = False, originalOverflow = ''''\<rparr>"

text \<open>
  A listener is known by its target, event type, callback and capture flag: adding one
  that is already there does nothing, removing takes the one that matches.
  \<open>document.body\<close> is there whenever a page pass runs: \<open>initialize\<close> observes it
  before the first pass.
\<close>

definition addEventListener :: "listener \<Rightarrow> page \<Rightarrow> page" where
  "addEventListener l pg =
     (if l \<in> set (listeners pg) then pg else pg\<lparr>listeners := listeners pg @ [l]\<rparr>)"

definition removeEventListener :: "listener \<Rightarrow> page \<Rightarrow> page" where
  "removeEventListener l pg = pg\<lparr>listeners := remove1 l (listeners pg)\<rparr>"

definition enable :: "ScrollPreventer \<times> page \<Rightarrow> ScrollPreventer \<times> page" where
  "enable s =
     (case s of (sp, pg) \<Rightarrow>
        if isActive sp then (sp, pg)
        else
          (sp\<lparr>originalOverflow := bodyOverflow pg, isActive := True\<rparr>,
           addEventListener (Window, ''keydown'', PreventKeys, False)
            (addEventListener (Window, ''wheel'', PreventWheel, False)
              (addEventListener (Document, ''keydown'', PreventKeys, True)
                (addEventListener (Document, ''wheel'', PreventWheel, True)
                  (pg\<lparr>bodyOverflow := ''hidden''\<rparr>))))))"

definition disable :: "ScrollPreventer \<times> page \<Rightarrow> ScrollPreventer \<times> page" where
  "disable s =
     (case s of (sp, pg) \<Rightarrow>
        if \<not> isActive sp then (sp, pg)
        else
          (sp\<lparr>isActive := False\<rparr>,
           removeEventListener (Window, ''keydown'', PreventKeys, False)
            (removeEventListener (Window, ''wheel'', PreventWheel, False)
              (removeEventListener (Document, ''keydown'', PreventKeys, True)
                (removeEventListener (Document, ''wheel'', PreventWheel, True)
                  (pg\<lparr>bodyOverflow := originalOverflow sp\<rparr>))))))"

definition update :: "ScrollPreventer \<times> page \<Rightarrow> ScrollPreventer \<times> page" where
  "update s = (if isShortsPage (href (snd s)) then enable s else disable s)"

section \<open>SavedTabsUI (lines 406-671), as far as the page pass drives it\<close>

text \<open>
  \<open>refresh()\<close> is an async function: the call returns a promise at once, and every
  failure inside it is caught there. The controller does not await it, so for a page
  pass it is a request that was started; \<open>refreshCalls\<close> counts them. \<open>remove()\<close>
  takes the container out of the document.
\<close>

record SavedTabsUI =
  container :: "nat option"
  refreshCalls :: nat

definition new_SavedTabsUI :: SavedTabsUI where
  "new_SavedTabsUI = \<lparr>container = None, refreshCalls = 0\<rparr>"

definition refresh :: "SavedTabsUI \<Rightarrow> SavedTabsUI" where
  "refresh ui = ui\<lparr>refreshCalls := Suc (refreshCalls ui)\<rparr>"

definition remove_node :: "nat \<Rightarrow> store \<Rightarrow> store" where
  "remove_node c st =
     (case st c of
        None \<Rightarrow> st
      | Some n \<Rightarrow>
          (case parentNode n of
             None \<Rightarrow> st
           | Some p \<Rightarrow>
               (let st1 = st(c \<mapsto> n\<lparr>parentNode := None\<rparr>)
                in case st1 p of
                     None \<Rightarrow> st1
                   | Some pn \<Rightarrow> st1(p \<mapsto> pn\<lparr>childNodes := removeAll c (childNodes pn)\<rparr>))))"

definition remove :: "SavedTabsUI \<times> page \<Rightarrow> SavedTabsUI \<times> page" where
  "remove s =
     (case s of (ui, pg) \<Rightarrow>
        (case container ui of
           None \<Rightarrow> (ui, pg)
         | Some c \<Rightarrow> (ui\<lparr>container := None\<rparr>, pg\<lparr>nodes := remove_node c (nodes pg)\<rparr>)))"

section \<open>YouTubeDetoxController (lines 677-852)\<close>

record YouTubeDetoxController =
  shortsBlocker :: ShortsBlocker
  scrollPreventer :: ScrollPreventer
  navigationButtonRemover :: NavigationButtonRemover
  savedTabsUI :: SavedTabsUI
  extensionEnabled :: bool
  currentUrl :: string
  isProcessing :: bool

definition new_YouTubeDetoxController :: "page \<Rightarrow> YouTubeDetoxController" where
  "new_YouTubeDetoxController pg =
     \<lparr>shortsBlocker = new_ShortsBlocker,
      scrollPreventer = new_ScrollPreventer,
      navigationButtonRemover = new_NavigationButtonRemover,
      savedTabsUI = new_SavedTabsUI,
      extensionEnabled = True,
      currentUrl = href pg,
      isProcessing = False\<rparr>"

text \<open>
  The body of the \<open>try\<close> block of \<open>processPage\<close>: the four stages in order. A stage
  that throws ends the block with the state it had reached.
\<close>

definition tryStages :: "YouTubeDetoxController \<times> page \<Rightarrow>
    (error \<times> YouTubeDetoxController \<times> page) + (YouTubeDetoxController \<times> page)" where
  "tryStages s =
     (case s of (c, pg) \<Rightarrow>
        (case update (scrollPreventer c, pg) of (sp, pg1) \<Rightarrow>
           (let c1 = c\<lparr>scrollPreventer := sp\<rparr>
            in case removeNavigationButtons (navigationButtonRemover c1, pg1) of
                 Inl x \<Rightarrow> Inl (fst x, c1\<lparr>navigationButtonRemover := fst (snd x)\<rparr>, snd (snd x))
               | Inr (nr, pg2) \<Rightarrow>
                   (let c2 = c1\<lparr>navigationButtonRemover := nr\<rparr>
                    in case processShorts (shortsBlocker c2, pg2) of
                         Inl y \<Rightarrow> Inl (fst y, c2\<lparr>shortsBlocker := fst (snd y)\<rparr>, snd (snd y))
                       | Inr (sb, pg3) \<Rightarrow>
                           (let c3 = c2\<lparr>shortsBlocker := sb\<rparr>
                            in if isHomePage (href pg3)
                               then Inr (c3\<lparr>savedTabsUI := refresh (savedTabsUI c3)\<rparr>,
                                         console_log ''[YT Detox] On homepage, showing saved tabs UI'' pg3)
                               else Inr (c3,
                                         console_log (''[YT Detox] Not on homepage, current URL: '' @ href pg3)
                                           pg3))))))"

definition processPage ::
    "YouTubeDetoxController \<times> page \<Rightarrow> YouTubeDetoxController \<times> page" where
  "processPage s =
     (case s of (c, pg) \<Rightarrow>
        if \<not> extensionEnabled c \<or> isProcessing c then (c, pg)
        else
          (case tryStages (c\<lparr>isProcessing := True\<rparr>, pg) of
             Inr (c1, pg1) \<Rightarrow> (c1\<lparr>isProcessing := False\<rparr>, pg1)
           | Inl x \<Rightarrow>
               ((fst (snd x))\<lparr>isProcessing := False\<rparr>,
                console_error ''[YT Detox] Page processing error:'' (snd (snd x)))))"

section \<open>Timers and the debounced pass (lines 89-95, 689)\<close>

text \<open>
  The event loop as far as the content script uses it: a clock, the table of pending
  timers (identifier, time due) and the next identifier. Every timer the controller
  sets has the same callback, \<open>() => this.processPage()\<close>, so the table does not
  store it: running the due timers takes the callback as an argument. \<open>timeoutId\<close> is
  the variable in the closure that \<open>debounce\<close> returns; \<open>app\<close> is everything else.
\<close>

record 'a loop =
  clock :: nat
  timerTable :: "(nat \<times> nat) list"
  nextTimer :: nat
  timeoutId :: "nat option"
  app :: 'a

definition setTimeout :: "nat \<Rightarrow> 'a loop \<Rightarrow> nat \<times> 'a loop" where
  "setTimeout delay s =
     (nextTimer s,
      s\<lparr>timerTable := timerTable s @ [(nextTimer s, clock s + delay)],
        nextTimer := Suc (nextTimer s)\<rparr>)"

text \<open>\<open>clearTimeout(undefined)\<close> and \<open>clearTimeout\<close> of a timer that has run do nothing.\<close>

definition clearTimeout :: "nat option \<Rightarrow> 'a loop \<Rightarrow> 'a loop" where
  "clearTimeout tid s =
     (case tid of
        None \<Rightarrow> s
      | Some i \<Rightarrow> s\<lparr>timerTable := filter (\<lambda>t. fst t \<noteq> i) (timerTable s)\<rparr>)"

text \<open>
  \<open>debounce(func, delay)\<close> returns a closure over \<open>timeoutId\<close>, which starts
  undefined (\<open>None\<close>). A call of that closure:
\<close>

definition debounced :: "nat \<Rightarrow> 'a loop \<Rightarrow> 'a loop" where
  "debounced delay s =
     (case setTimeout delay (clearTimeout (timeoutId s) s) of
        (tid, s1) \<Rightarrow> s1\<lparr>timeoutId := Some tid\<rparr>)"

text \<open>
  Time passes: the clock moves on by \<open>d\<close>, and each timer that is due by then leaves
  the table and runs the callback once.
\<close>

definition due :: "nat \<Rightarrow> nat \<times> nat \<Rightarrow> bool" where
  "due now t = (snd t \<le> now)"

definition elapse :: "('a \<Rightarrow> 'a) \<Rightarrow> nat \<Rightarrow> 'a loop \<Rightarrow> 'a loop" where
  "elapse func d s =
     (let now = clock s + d
      in s\<lparr>clock := now,
           timerTable := filter (\<lambda>t. \<not> due now t) (timerTable s),
           app := (func ^^ length (filter (due now) (timerTable s))) (app s)\<rparr>)"

section \<open>The mutation observer (lines 725-761)\<close>

text \<open>
  A node as a mutation record shows it to the callback: its type, its \<open>id\<close>, its
  classes, the names of its attributes and its parent element. \<open>closest\<close> walks from
  the node up through the parents.
\<close>

datatype observed =
  Observed (obs_nodeType: nat) (obs_id: string) (classList: "string list")
    (attributeNames: "string list") (parentElement: "observed option")

record mutation =
  target :: observed
  addedNodes :: "observed list"

fun closest :: "(observed \<Rightarrow> bool) \<Rightarrow> observed \<Rightarrow> observed option" where
  "closest sel (Observed t i cs as p) =
     (if sel (Observed t i cs as p) then Some (Observed t i cs as p)
      else case p of None \<Rightarrow> None | Some q \<Rightarrow> closest sel q)"

definition has_id :: "string \<Rightarrow> observed \<Rightarrow> bool" where
  "has_id i n = (obs_id n = i)"

definition has_class :: "string \<Rightarrow> observed \<Rightarrow> bool" where
  "has_class c n = (c \<in> set (classList n))"

definition hasAttribute :: "observed \<Rightarrow> string \<Rightarrow> bool" where
  "hasAttribute n a = (a \<in> set (attributeNames n))"

text \<open>The first test of the filter: the mutation is in one of our own containers.\<close>

definition inOwnContainer :: "observed \<Rightarrow> bool" where
  "inOwnContainer t =
     (closest (has_id ''yt-detox-saved-tabs'') t \<noteq> None
      \<or> closest (has_class ''yt-detox-overlay'') t \<noteq> None
      \<or> hasAttribute t ''data-yt-detox'')"

text \<open>The test on an added node: an element that carries one of our marks.\<close>

definition ownNode :: "observed \<Rightarrow> bool" where
  "ownNode n =
     (obs_nodeType n = ELEMENT_NODE
      \<and> (obs_id n = ''yt-detox-saved-tabs''
         \<or> ''yt-detox-overlay'' \<in> set (classList n)
         \<or> hasAttribute n ''data-yt-detox''))"

definition isRelevant :: "mutation \<Rightarrow> bool" where
  "isRelevant m =
     (if inOwnContainer (target m) then False
      else if list_ex ownNode (addedNodes m) then False
      else True)"

definition observerCallback ::
    "mutation list \<Rightarrow> (YouTubeDetoxController \<times> page) loop \<Rightarrow> (YouTubeDetoxController \<times> page) loop" where
  "observerCallback mutations s =
     (if \<not> extensionEnabled (fst (app s)) then s
      else
        (let relevantMutations = filter isRelevant mutations
         in if length relevantMutations > 0 then debounced DEBOUNCE_DELAY s else s))"

section \<open>Navigation (lines 790-806)\<close>

definition handleNavigation ::
    "(YouTubeDetoxController \<times> page) loop \<Rightarrow> (YouTubeDetoxController \<times> page) loop" where
  "handleNavigation s =
     (case app s of (c, pg) \<Rightarrow>
        (let newUrl = href pg
         in if newUrl \<noteq> currentUrl c
            then
              (let c1 = c\<lparr>currentUrl := newUrl,
                          shortsBlocker := resetSession (shortsBlocker c),
                          navigationButtonRemover := reset (navigationButtonRemover c)\<rparr>
               in case remove (savedTabsUI c1, pg) of
                    (ui, pg1) \<Rightarrow> snd (setTimeout 100 (s\<lparr>app := (c1\<lparr>savedTabsUI := ui\<rparr>, pg1)\<rparr>)))
            else s))"

section \<open>Runs of the shorts blocker\<close>

text \<open>
  What can happen to a \<open>ShortsBlocker\<close> and its page: the page pass suppresses an
  element, the user clicks the toggle button of an overlay that is in the document
  (which runs the listener \<open>createOverlay\<close> registered for it), or a navigation resets
  the session.
\<close>

datatype action = Suppress nat | ClickToggle nat nat | Navigate

fun act :: "action \<Rightarrow> ShortsBlocker \<times> page \<Rightarrow> ShortsBlocker \<times> page" where
  "act (Suppress e) s = hideShort e s"
| "act (ClickToggle overlay e) s =
     (if (overlay, e) \<in> set (clickHandlers (snd s)) \<and> parentOf (nodes (snd s)) overlay \<noteq> None
      then toggleShortVisibility e overlay s else s)"
| "act Navigate s = (resetSession (fst s), snd s)"

text \<open>
  The invariant of such runs: every session-visible element is a hidden short, every
  listener belongs to an overlay that was allocated, and the element of an overlay
  that has a parent is a hidden short.
\<close>

definition tracked_ok :: "ShortsBlocker \<times> page \<Rightarrow> bool" where
  "tracked_ok s =
     (sessionVisible (fst s) \<subseteq> hiddenShorts (fst s)
      \<and> list_all (\<lambda>h. fst h < fresh (snd s)
            \<and> (parentOf (nodes (snd s)) (fst h) = None \<or> snd h \<in> hiddenShorts (fst s)))
          (clickHandlers (snd s)))"

section \<open>Example pages\<close>

text \<open>
  A feed: a container (node 0) with three shorts (nodes 1, 2, 3) and an element that
  is not in the document (node 4). The first selector matches nodes 1 and 2, the
  second nodes 2 and 3, the others nothing.
\<close>

definition elem :: "nat option \<Rightarrow> nat list \<Rightarrow> node" where
  "elem p kids =
     \<lparr>nodeType = ELEMENT_NODE, className = '''', attributes = [], style_display = '''',
      parentNode = p, childNodes = kids\<rparr>"

definition feed_store :: store where
  "feed_store =
     [0 \<mapsto> elem None [1, 2, 3], 1 \<mapsto> elem (Some 0) [], 2 \<mapsto> elem (Some 0) [],
      3 \<mapsto> elem (Some 0) [], 4 \<mapsto> elem None []]"

definition feed_engine :: "string \<Rightarrow> store \<Rightarrow> nat list option" where
  "feed_engine selector st =
     (if selector = ''[is-shorts]'' then Some [1, 2]
      else if selector = ''ytd-shorts'' then Some [2, 3]
      else Some [])"

definition feed_page :: page where
  "feed_page =
     \<lparr>nodes = feed_store, fresh = 5, href = ''https://www.youtube.com/'', console = [],
      engine = feed_engine, clickHandlers = [], bodyOverflow = ''auto'', listeners = []\<rparr>"

text \<open>The same page with a non-default inline overflow on the body.\<close>

definition scroll_page :: page where
  "scroll_page = feed_page\<lparr>bodyOverflow := ''scroll''\<rparr>"

text \<open>The same page at a shorts URL.\<close>

definition shorts_page :: page where
  "shorts_page = feed_page\<lparr>href := ''https://www.youtube.com/shorts/abc''\<rparr>"

text \<open>The controller on the feed, with no timer pending.\<close>

definition idle_loop :: "(YouTubeDetoxController \<times> page) loop" where
  "idle_loop =
     \<lparr>clock = 0, timerTable = [], nextTimer = 0, timeoutId = None,
      app = (new_YouTubeDetoxController feed_page, feed_page)\<rparr>"

text \<open>
  A batch of the extension's own mutations: a text node and a marked element added
  inside an overlay, and a removal inside the saved-tabs container.
\<close>

definition overlay_seen :: observed where
  "overlay_seen =
     Observed 1 '''' [''yt-detox-overlay''] [''data-yt-detox'']
       (Some (Observed 1 ''contents'' [] [] None))"

definition grid_seen :: observed where
  "grid_seen =
     Observed 1 '''' [''yt-detox-saved-tabs-grid''] []
       (Some (Observed 1 ''yt-detox-saved-tabs'' [] [] (Some (Observed 1 ''contents'' [] [] None))))"

definition own_batch :: "mutation list" where
  "own_batch =
     [\<lparr>target = overlay_seen,
       addedNodes = [Observed 3 '''' [] [] (Some overlay_seen),
                     Observed 1 '''' [] [''data-yt-detox''] (Some overlay_seen)]\<rparr>,
      \<lparr>target = grid_seen, addedNodes = []\<rparr>]"

text \<open>
  The feed after a pass and one click: node 1 was suppressed (overlay 5) and then
  revealed by the user, node 2 is suppressed (overlay 6), node 3 was not seen yet.
  Then the URL changes, and the controller has not handled the navigation yet.
\<close>

definition revealed_feed :: "ShortsBlocker \<times> page" where
  "revealed_feed =
     toggleShortVisibility 1 5 (hideShort 2 (hideShort 1 (new_ShortsBlocker, feed_page)))"

definition navigating :: "(YouTubeDetoxController \<times> page) loop" where
  "navigating =
     \<lparr>clock = 0, timerTable = [], nextTimer = 0, timeoutId = None,
      app = ((new_YouTubeDetoxController feed_page)\<lparr>shortsBlocker := fst revealed_feed\<rparr>,
             (snd revealed_feed)\<lparr>href := ''https://www.youtube.com/results?search_query=x''\<rparr>)\<rparr>"

text \<open>
  The feed in a browser whose selector engine has no \<open>:has()\<close>, as Chrome before 105
  and Firefox before 121 (the README files name Chrome 88 and Firefox 88 as the oldest
  supported): the last selector of \<open>SHORTS_CONTAINERS\<close> does not parse there.
\<close>

definition legacy_engine :: "string \<Rightarrow> store \<Rightarrow> nat list option" where
  "legacy_engine selector st =
     (if str_includes selector '':has('' then None else feed_engine selector st)"

definition legacy_page :: page where
  "legacy_page = feed_page\<lparr>engine := legacy_engine\<rparr>"

text \<open>A shorts page whose engine refuses one of the selectors of the navigation buttons.\<close>

definition picky_engine :: "string \<Rightarrow> store \<Rightarrow> nat list option" where
  "picky_engine selector st = (if selector = ''.navigation-button'' then None else Some [])"

definition picky_page :: page where
  "picky_page = shorts_page\<lparr>engine := picky_engine\<rparr>"

text \<open>A batch of the page's own: a renderer added to the contents.\<close>

definition page_batch :: "mutation list" where
  "page_batch =
     [\<lparr>target = Observed 1 ''contents'' [] [] None,
       addedNodes = [Observed 1 '''' [''ytd-rich-item-renderer''] []
                       (Some (Observed 1 ''contents'' [] [] None))]\<rparr>]"

section \<open>What the removal of the navigation buttons matches\<close>

text \<open>
  The selectors of the navigation buttons look at tags, classes and attributes such
  as \<open>aria-label\<close> and \<open>title\<close>, not at the inline style. An engine is blind to the
  style when two stores that differ only in \<open>style.display\<close> give the same matches.
\<close>

definition unstyled :: "store \<Rightarrow> store" where
  "unstyled st = (\<lambda>x. map_option (\<lambda>n. n\<lparr>style_display := ''''\<rparr>) (st x))"

definition styleBlind :: "page \<Rightarrow> bool" where
  "styleBlind pg =
     (\<forall>selector st st'. unstyled st = unstyled st' \<longrightarrow> engine pg selector st = engine pg selector st')"

text \<open>The buttons of the page, in the order in which the selectors find them.\<close>

definition navigationMatches :: "page \<Rightarrow> nat list" where
  "navigationMatches pg =
     concat (map (\<lambda>selector. case engine pg selector (nodes pg) of None \<Rightarrow> [] | Some els \<Rightarrow> els)
               navigationSelectors)"

definition hidden :: "node \<Rightarrow> node" where
  "hidden n = n\<lparr>style_display := ''none''\<rparr>"

text \<open>
  A shorts page with its player (node 1) and two navigation buttons (nodes 2 and 3).
\<close>

definition reel_store :: store where
  "reel_store =
     [0 \<mapsto> elem None [1, 2, 3], 1 \<mapsto> elem (Some 0) [], 2 \<mapsto> elem (Some 0) [],
      3 \<mapsto> elem (Some 0) []]"

definition reel_engine :: "string \<Rightarrow> store \<Rightarrow> nat list option" where
  "reel_engine selector st =
     (if selector = ''button[aria-label*=\"Next video\"]'' then Some [2]
      else if selector = ''.navigation-button'' then Some [2, 3]
      else if selector = ''ytd-reel-video-renderer'' then Some [1]
      else Some [])"

definition reel_page :: page where
  "reel_page =
     \<lparr>nodes = reel_store, fresh = 4, href = ''https://www.youtube.com/shorts/abc'', console = [],
      engine = reel_engine, clickHandlers = [], bodyOverflow = ''auto'', listeners = []\<rparr>"

text \<open>The feed at a home page URL whose query string holds \<open>/shorts/\<close>.\<close>

definition overlap_page :: page where
  "overlap_page = feed_page\<lparr>href := ''https://www.youtube.com/?next=/shorts/x''\<rparr>"

section \<open>Bursts of mutation batches\<close>

text \<open>
  Batches reach the observer one after the other: each entry is the time that passes
  before the batch and the batch itself. Timers that come due in between run \<open>func\<close>.
\<close>

fun deliver :: "(YouTubeDetoxController \<times> page \<Rightarrow> YouTubeDetoxController \<times> page) \<Rightarrow>
    (nat \<times> mutation list) list \<Rightarrow> (YouTubeDetoxController \<times> page) loop \<Rightarrow>
    (YouTubeDetoxController \<times> page) loop" where
  "deliver func [] s = s"
| "deliver func (b # rest) s = deliver func rest (observerCallback (snd b) (elapse func (fst b) s))"

text \<open>No timer is pending but, at most, the one of the debounced function.\<close>

definition onlyDebounceTimer :: "'a loop \<Rightarrow> bool" where
  "onlyDebounceTimer s =
     (case timerTable s of
        [] \<Rightarrow> True
      | [t] \<Rightarrow> timeoutId s = Some (fst t)
      | _ \<Rightarrow> False)"

text \<open>A batch that qualifies and arrives before the delay has passed.\<close>

definition inWindow :: "nat \<times> mutation list \<Rightarrow> bool" where
  "inWindow b = (fst b < DEBOUNCE_DELAY \<and> filter isRelevant (snd b) \<noteq> [])"

text \<open>The debounce timer is the one pending timer, set just now, and \<open>app\<close> is \<open>a\<close>.\<close>

definition armed :: "'a \<Rightarrow> 'a loop \<Rightarrow> bool" where
  "armed a s =
     (case timeoutId s of
        None \<Rightarrow> False
      | Some i \<Rightarrow> app s = a \<and> timerTable s = [(i, clock s + DEBOUNCE_DELAY)])"

section \<open>Deduplication, as the specification words it\<close>

text \<open>Keep the first occurrence of each element, in the order of first occurrence.\<close>

fun first_seen :: "nat list \<Rightarrow> nat list" where
  "first_seen [] = []"
| "first_seen (x # xs) = x # removeAll x (first_seen xs)"

section \<open>Properties of the shorts blocker\<close>

lemmas eval_defs = hideShort_def createOverlay_def toggleShortVisibility_def insertBefore_def
  nextSibling_def parentOf_def set_display_def isElement_def new_ShortsBlocker_def
  feed_page_def feed_store_def elem_def ELEMENT_NODE_def DOCUMENT_NODE_def
  DOCUMENT_FRAGMENT_NODE_def resetSession_def console_error_def Let_def

lemma parentOf_set_display [simp]:
  "parentOf (nodes (set_display e v pg)) x = parentOf (nodes pg) x"
  by (auto simp: set_display_def parentOf_def split: option.splits)

lemma fresh_set_display [simp]: "fresh (set_display e v pg) = fresh pg"
  by (simp add: set_display_def split: option.splits)

lemma clickHandlers_set_display [simp]: "clickHandlers (set_display e v pg) = clickHandlers pg"
  by (simp add: set_display_def split: option.splits)

lemma parentOf_insertBefore:
  "insertBefore p new r st = Inr st' \<Longrightarrow> x \<noteq> new \<Longrightarrow> parentOf st' x = parentOf st x"
  by (auto simp: insertBefore_def parentOf_def Let_def split: option.splits if_splits)

lemma createOverlay_simps [simp]:
  "fst (createOverlay e pg) = fresh pg"
  "fresh (snd (createOverlay e pg)) = Suc (fresh pg)"
  "clickHandlers (snd (createOverlay e pg)) = clickHandlers pg @ [(fresh pg, e)]"
  "console (snd (createOverlay e pg)) = console pg"
  "parentOf (nodes (snd (createOverlay e pg))) x =
     (if x = fresh pg then None else parentOf (nodes pg) x)"
  by (simp_all add: createOverlay_def Let_def parentOf_def)

text \<open>What \<open>hideShort\<close> does to an element that is in neither set.\<close>

lemma hideShort_cases:
  assumes "e \<notin> hiddenShorts sb" "e \<notin> sessionVisible sb"
  shows "hideShort e (sb, pg) =
     (let pg1 = snd (createOverlay e pg) in
      case parentOf (nodes pg1) e of
        None \<Rightarrow> (sb, pg1)
      | Some p \<Rightarrow>
          (case insertBefore p (fresh pg) (nextSibling (nodes pg1) e) (nodes pg1) of
             Inl err \<Rightarrow> (sb, console_error ''[YT Detox] Error hiding short:'' pg1)
           | Inr st \<Rightarrow>
               (sb\<lparr>hiddenShorts := insert e (hiddenShorts sb)\<rparr>,
                set_display e ''none'' (pg1\<lparr>nodes := st\<rparr>))))"
  using assms by (simp add: hideShort_def Let_def case_prod_beta split: option.splits sum.splits)

lemma tracked_ok_toggle:
  assumes "tracked_ok s" "(ov, e) \<in> set (clickHandlers (snd s))" "parentOf (nodes (snd s)) ov \<noteq> None"
  shows "tracked_ok (toggleShortVisibility e ov s)"
proof -
  obtain sb pg where s: "s = (sb, pg)" by (cases s)
  from assms have "e \<in> hiddenShorts sb"
    by (auto simp: tracked_ok_def s list_all_iff)
  with assms(1) show ?thesis
    by (auto simp: tracked_ok_def s toggleShortVisibility_def list_all_iff)
qed

lemma tracked_ok_hideShort:
  assumes "tracked_ok s"
  shows "tracked_ok (hideShort e s)"
proof -
  obtain sb pg where s: "s = (sb, pg)" by (cases s)
  define pg1 where "pg1 = snd (createOverlay e pg)"
  from assms have sub: "sessionVisible sb \<subseteq> hiddenShorts sb"
    and old: "\<And>a b. (a, b) \<in> set (clickHandlers pg) \<Longrightarrow>
                a < fresh pg \<and> (parentOf (nodes pg) a = None \<or> b \<in> hiddenShorts sb)"
    by (auto simp: tracked_ok_def s list_all_iff)
  show ?thesis
  proof (cases "e \<in> hiddenShorts sb \<or> e \<in> sessionVisible sb")
    case True
    then show ?thesis using assms by (auto simp: s hideShort_def)
  next
    case False
    then have un: "e \<notin> hiddenShorts sb" "e \<notin> sessionVisible sb" by auto
    have detached: "tracked_ok (sb, pg1)"
      using sub old by (auto simp: tracked_ok_def pg1_def list_all_iff less_Suc_eq)
    show ?thesis
    proof (cases "parentOf (nodes pg1) e")
      case None
      then show ?thesis using detached
        by (simp add: s hideShort_cases [OF un] pg1_def [symmetric])
    next
      case (Some p)
      show ?thesis
      proof (cases "insertBefore p (fresh pg) (nextSibling (nodes pg1) e) (nodes pg1)")
        case (Inl err)
        then show ?thesis using detached Some
          by (simp add: s hideShort_cases [OF un] pg1_def [symmetric] tracked_ok_def console_error_def)
      next
        case (Inr st)
        have keep: "\<And>a. a \<noteq> fresh pg \<Longrightarrow> parentOf st a = parentOf (nodes pg) a"
          using parentOf_insertBefore [OF Inr] by (simp add: pg1_def)
        have "tracked_ok (sb\<lparr>hiddenShorts := insert e (hiddenShorts sb)\<rparr>,
                set_display e ''none'' (pg1\<lparr>nodes := st\<rparr>))"
          using sub old keep
          by (fastforce simp: tracked_ok_def pg1_def list_all_iff less_Suc_eq)
        then show ?thesis using Some Inr
          by (simp add: s hideShort_cases [OF un] pg1_def [symmetric])
      qed
    qed
  qed
qed

lemma tracked_ok_act: "tracked_ok s \<Longrightarrow> tracked_ok (act a s)"
proof (cases a)
  case (Suppress e)
  assume "tracked_ok s" then show ?thesis by (simp add: Suppress tracked_ok_hideShort)
next
  case (ClickToggle ov e)
  assume "tracked_ok s" then show ?thesis by (simp add: ClickToggle tracked_ok_toggle)
next
  case Navigate
  assume "tracked_ok s" then show ?thesis
    by (simp add: Navigate tracked_ok_def resetSession_def)
qed

lemma tracked_ok_fold: "tracked_ok s \<Longrightarrow> tracked_ok (fold act as s)"
  by (induction as arbitrary: s) (simp_all add: tracked_ok_act)

lemma tracked_ok_new: "clickHandlers pg = [] \<Longrightarrow> tracked_ok (new_ShortsBlocker, pg)"
  by (simp add: tracked_ok_def new_ShortsBlocker_def)

text \<open>
  Claim C1, as the code has it. The two sets are not disjoint: \<open>toggleShortVisibility\<close>
  adds the element to \<open>sessionVisible\<close> or deletes it there, and never changes
  \<open>hiddenShorts\<close>, so a revealed element is in both sets. In every state that a run
  reaches from a new blocker on a page without overlays, \<open>sessionVisible\<close> is a subset
  of \<open>hiddenShorts\<close>.
\<close>

theorem sessionVisible_within_hiddenShorts:
  "hiddenShorts (fst (toggleShortVisibility e ov (sb, pg))) = hiddenShorts sb
   \<and> sessionVisible (fst (toggleShortVisibility e ov (sb, pg))) =
       (if e \<in> sessionVisible sb then sessionVisible sb - {e} else insert e (sessionVisible sb))
   \<and> (clickHandlers pg0 = [] \<longrightarrow>
        sessionVisible (fst (fold act as (new_ShortsBlocker, pg0)))
          \<subseteq> hiddenShorts (fst (fold act as (new_ShortsBlocker, pg0))))"
proof -
  have "clickHandlers pg0 = [] \<Longrightarrow> tracked_ok (fold act as (new_ShortsBlocker, pg0))"
    by (intro tracked_ok_fold tracked_ok_new)
  then show ?thesis
    by (auto simp: toggleShortVisibility_def tracked_ok_def)
qed

text \<open>
  The run on the feed: node 1 is suppressed (its overlay is node 5), then the user
  clicks the toggle button. Node 1 is in both sets.
\<close>

theorem sessionVisible_within_hiddenShorts_witness:
  "clickHandlers feed_page = []
   \<and> fst (fold act [Suppress 1, ClickToggle 5 1] (new_ShortsBlocker, feed_page))
       = \<lparr>hiddenShorts = {1}, sessionVisible = {1}\<rparr>
   \<and> sessionVisible (fst (fold act [Suppress 1, ClickToggle 5 1] (new_ShortsBlocker, feed_page)))
       \<subseteq> hiddenShorts (fst (fold act [Suppress 1, ClickToggle 5 1] (new_ShortsBlocker, feed_page)))"
  using sessionVisible_within_hiddenShorts
    [of 1 5 new_ShortsBlocker feed_page feed_page "[Suppress 1, ClickToggle 5 1]"]
  by (simp add: eval_defs)

text \<open>
  Claim C1 as the specification states it (no element is ever in both sets) fails
  after one suppression and one toggle.
\<close>

theorem toggle_leaves_element_in_both_sets:
  "1 \<in> hiddenShorts (fst (toggleShortVisibility 1 5 (hideShort 1 (new_ShortsBlocker, feed_page))))
   \<and> 1 \<in> sessionVisible (fst (toggleShortVisibility 1 5 (hideShort 1 (new_ShortsBlocker, feed_page))))"
  by (simp add: eval_defs)

text \<open>
  Claim C7: \<open>hideShort\<close> on an element that is already suppressed (in \<open>hiddenShorts\<close>)
  or revealed (in \<open>sessionVisible\<close>) changes nothing: the blocker's two sets and the
  whole page (nodes, allocator, listeners, console) are as before, so no second
  overlay is made.
\<close>

theorem hideShort_tracked_noop:
  "e \<in> hiddenShorts sb \<or> e \<in> sessionVisible sb \<Longrightarrow> hideShort e (sb, pg) = (sb, pg)"
  by (auto simp: hideShort_def)

text \<open>
  On the feed: node 1 after its suppression, and node 1 after the user has revealed
  it again.
\<close>

theorem hideShort_tracked_noop_witness:
  "1 \<in> hiddenShorts (fst (hideShort 1 (new_ShortsBlocker, feed_page)))
   \<and> hideShort 1 (hideShort 1 (new_ShortsBlocker, feed_page)) = hideShort 1 (new_ShortsBlocker, feed_page)
   \<and> 1 \<in> sessionVisible (fst revealed_feed)
   \<and> hideShort 1 revealed_feed = revealed_feed"
proof -
  obtain sb pg where s: "hideShort 1 (new_ShortsBlocker, feed_page) = (sb, pg)"
    by (cases "hideShort 1 (new_ShortsBlocker, feed_page)")
  have "1 \<in> hiddenShorts (fst (hideShort 1 (new_ShortsBlocker, feed_page)))"
    by (simp add: eval_defs)
  then have m: "1 \<in> hiddenShorts sb" unfolding s by simp
  have a: "1 \<in> hiddenShorts (fst (sb, pg)) \<and> hideShort 1 (sb, pg) = (sb, pg)"
    using m hideShort_tracked_noop [of 1 sb pg] by simp
  obtain sb2 pg2 where r: "revealed_feed = (sb2, pg2)"
    by (cases revealed_feed)
  have "1 \<in> sessionVisible (fst revealed_feed)"
    by (simp add: revealed_feed_def eval_defs)
  then have m2: "1 \<in> sessionVisible sb2" unfolding r by simp
  have b: "1 \<in> sessionVisible (fst (sb2, pg2)) \<and> hideShort 1 (sb2, pg2) = (sb2, pg2)"
    using m2 hideShort_tracked_noop [of 1 sb2 pg2] by simp
  show ?thesis unfolding s r using a b by simp
qed

section \<open>Properties of the scroll preventer\<close>

text \<open>
  Claim C5: from an inactive preventer, \<open>enable\<close> and then \<open>disable\<close> gives the body
  the inline overflow it had before \<open>enable\<close>, whatever that was; a second \<open>enable\<close>
  in a row changes nothing, so the captured overflow is still the one from before the
  first \<open>enable\<close>, and a second \<open>disable\<close> in a row changes nothing.
\<close>

theorem enable_disable_restores_overflow:
  "(\<not> isActive sp \<longrightarrow>
      bodyOverflow (snd (disable (enable (sp, pg)))) = bodyOverflow pg
      \<and> originalOverflow (fst (enable (enable (sp, pg)))) = bodyOverflow pg)
   \<and> enable (enable (sp, pg)) = enable (sp, pg)
   \<and> disable (disable (sp, pg)) = disable (sp, pg)"
  by (simp add: enable_def disable_def addEventListener_def removeEventListener_def)

theorem enable_disable_restores_overflow_witness:
  "\<not> isActive new_ScrollPreventer
   \<and> bodyOverflow (snd (enable (new_ScrollPreventer, scroll_page))) = ''hidden''
   \<and> bodyOverflow (snd (disable (enable (new_ScrollPreventer, scroll_page)))) = ''scroll''
   \<and> originalOverflow (fst (enable (enable (new_ScrollPreventer, scroll_page)))) = ''scroll''"
  using enable_disable_restores_overflow [of new_ScrollPreventer scroll_page]
  by (simp add: new_ScrollPreventer_def scroll_page_def feed_page_def enable_def addEventListener_def)

text \<open>With no listener on the page before, the listeners are detached as well.\<close>

lemma enable_disable_restores_page:
  assumes "\<not> isActive sp" "listeners pg = []"
  shows "disable (enable (sp, pg)) = (sp\<lparr>originalOverflow := bodyOverflow pg\<rparr>, pg)"
  using assms by (simp add: enable_def disable_def addEventListener_def removeEventListener_def)

section \<open>Properties of the mutation filter\<close>

text \<open>
  Claim C4: when the target of every mutation of a batch is inside one of the
  extension's containers or carries its attribute, and every added element node is
  marked, the filter keeps no mutation and the callback leaves the loop as it is: no
  timer is set, so no page pass is scheduled.
\<close>

theorem own_mutations_filtered:
  assumes "\<forall>m \<in> set mutations. inOwnContainer (target m)"
    and "\<forall>m \<in> set mutations. \<forall>n \<in> set (addedNodes m). obs_nodeType n = ELEMENT_NODE \<longrightarrow> ownNode n"
  shows "filter isRelevant mutations = [] \<and> observerCallback mutations s = s"
proof -
  have "filter isRelevant mutations = []"
    using assms(1) by (simp add: filter_empty_conv isRelevant_def)
  then show ?thesis by (simp add: observerCallback_def)
qed

theorem own_mutations_filtered_witness:
  "list_all (\<lambda>m. inOwnContainer (target m)) own_batch
   \<and> filter isRelevant own_batch = []
   \<and> observerCallback own_batch idle_loop = idle_loop"
proof -
  have h1: "\<forall>m \<in> set own_batch. inOwnContainer (target m)"
    by (simp add: own_batch_def overlay_seen_def grid_seen_def inOwnContainer_def has_id_def
        has_class_def hasAttribute_def)
  have h2: "\<forall>m \<in> set own_batch. \<forall>n \<in> set (addedNodes m).
              obs_nodeType n = ELEMENT_NODE \<longrightarrow> ownNode n"
    by (simp add: own_batch_def ownNode_def hasAttribute_def ELEMENT_NODE_def)
  show ?thesis
    using own_mutations_filtered [OF h1 h2, of idle_loop] h1 by (simp add: list_all_iff)
qed

text \<open>
  The write of \<open>hideShort\<close> itself is a mutation of the short's parent that adds the
  overlay; the filter drops it for the added node, whatever the target.
\<close>

lemma overlay_insertion_filtered:
  "ownNode n \<Longrightarrow> n \<in> set (addedNodes m) \<Longrightarrow> \<not> isRelevant m"
  by (auto simp: isRelevant_def list_ex_iff)

section \<open>Properties of the page pass\<close>

lemma update_frame [simp]:
  "href (snd (update s)) = href (snd s)"
  "fresh (snd (update s)) = fresh (snd s)"
  "clickHandlers (snd (update s)) = clickHandlers (snd s)"
  "nodes (snd (update s)) = nodes (snd s)"
  "console (snd (update s)) = console (snd s)"
  "engine (snd (update s)) = engine (snd s)"
  by (cases s; simp add: update_def enable_def disable_def addEventListener_def removeEventListener_def)+

lemma safeQuerySelectorAll_Inr:
  "safeQuerySelectorAll sel pg = Inr r \<Longrightarrow>
     href (snd r) = href pg \<and> fresh (snd r) = fresh pg \<and> clickHandlers (snd r) = clickHandlers pg
     \<and> nodes (snd r) = nodes pg \<and> engine (snd r) = engine pg"
  by (auto simp: safeQuerySelectorAll_def querySelectorAll_def console_warn_def Let_def
      split: sum.splits if_splits option.splits)

lemma safeQuerySelectorAll_Inl:
  "safeQuerySelectorAll sel pg = Inl x \<Longrightarrow>
     href (snd x) = href pg \<and> fresh (snd x) = fresh pg \<and> clickHandlers (snd x) = clickHandlers pg
     \<and> nodes (snd x) = nodes pg \<and> engine (snd x) = engine pg"
  by (auto simp: safeQuerySelectorAll_def querySelectorAll_def console_warn_def Let_def
      split: sum.splits if_splits option.splits)

lemma hideButton_frame [simp]:
  "href (snd (hideButton b s)) = href (snd s)"
  "fresh (snd (hideButton b s)) = fresh (snd s)"
  "clickHandlers (snd (hideButton b s)) = clickHandlers (snd s)"
  by (cases s; simp add: hideButton_def set_display_def split: option.splits)+

lemma fold_hideButton_frame [simp]:
  "href (snd (fold hideButton bs s)) = href (snd s)"
  "fresh (snd (fold hideButton bs s)) = fresh (snd s)"
  "clickHandlers (snd (fold hideButton bs s)) = clickHandlers (snd s)"
  by (induction bs arbitrary: s; simp)+

lemma removeEach_frame:
  "(removeEach sels s = Inr r \<longrightarrow>
      href (snd r) = href (snd s) \<and> fresh (snd r) = fresh (snd s)
      \<and> clickHandlers (snd r) = clickHandlers (snd s))
   \<and> (removeEach sels s = Inl x \<longrightarrow>
      fresh (snd (snd x)) = fresh (snd s) \<and> clickHandlers (snd (snd x)) = clickHandlers (snd s))"
proof (induction sels arbitrary: s)
  case Nil
  then show ?case by simp
next
  case (Cons sel sels)
  show ?case
  proof (cases "safeQuerySelectorAll sel (snd s)")
    case (Inl a)
    then show ?thesis using safeQuerySelectorAll_Inl [OF Inl] by auto
  next
    case (Inr b)
    then show ?thesis
      using safeQuerySelectorAll_Inr [OF Inr] Cons.IH [of "fold hideButton (fst b) (fst s, snd b)"]
      by simp
  qed
qed

lemma removeNavigationButtons_frame:
  "(removeNavigationButtons s = Inr r \<longrightarrow>
      href (snd r) = href (snd s) \<and> fresh (snd r) = fresh (snd s)
      \<and> clickHandlers (snd r) = clickHandlers (snd s))
   \<and> (removeNavigationButtons s = Inl x \<longrightarrow>
      fresh (snd (snd x)) = fresh (snd s) \<and> clickHandlers (snd (snd x)) = clickHandlers (snd s))"
  using removeEach_frame [of navigationSelectors s r x]
  by (auto simp: removeNavigationButtons_def)

lemma addEventListener_frame [simp]:
  "nodes (addEventListener l pg) = nodes pg"
  "engine (addEventListener l pg) = engine pg"
  "href (addEventListener l pg) = href pg"
  "bodyOverflow (addEventListener l pg) = bodyOverflow pg"
  "console (addEventListener l pg) = console pg"
  by (simp_all add: addEventListener_def)

text \<open>What the loop over the buttons of one selector does.\<close>

lemma hideButton_effect:
  "hideButton b (nr, pg) =
     (nr\<lparr>removedButtons := insert b (removedButtons nr)\<rparr>,
      pg\<lparr>nodes := (\<lambda>x. if x = b \<and> x \<notin> removedButtons nr then map_option hidden (nodes pg x)
                        else nodes pg x)\<rparr>)"
proof -
  have f: "(\<lambda>x. if x = b \<and> x \<notin> removedButtons nr then map_option hidden (nodes pg x) else nodes pg x)
            = (if b \<in> removedButtons nr then nodes pg
               else case nodes pg b of None \<Rightarrow> nodes pg | Some n \<Rightarrow> (nodes pg)(b \<mapsto> hidden n))"
    by (auto simp: fun_eq_iff split: option.splits)
  show ?thesis
    unfolding f
    by (auto simp: hideButton_def set_display_def hidden_def insert_absorb split: option.splits)
qed

lemma fold_hideButton_effect:
  "fold hideButton bs (nr, pg) =
     (nr\<lparr>removedButtons := removedButtons nr \<union> set bs\<rparr>,
      pg\<lparr>nodes := (\<lambda>x. if x \<in> set bs \<and> x \<notin> removedButtons nr then map_option hidden (nodes pg x)
                        else nodes pg x)\<rparr>)"
proof (induction bs arbitrary: nr pg)
  case Nil
  then show ?case by simp
next
  case (Cons b bs)
  have "pg\<lparr>nodes :=
          \<lambda>x. if x \<in> set bs \<and> x \<noteq> b \<and> x \<notin> removedButtons nr
              then map_option hidden
                    (nodes (pg\<lparr>nodes := \<lambda>x. if x = b \<and> x \<notin> removedButtons nr
                                then map_option hidden (nodes pg x) else nodes pg x\<rparr>) x)
              else nodes (pg\<lparr>nodes := \<lambda>x. if x = b \<and> x \<notin> removedButtons nr
                              then map_option hidden (nodes pg x) else nodes pg x\<rparr>) x\<rparr>
      = pg\<lparr>nodes :=
          \<lambda>x. if (x = b \<or> x \<in> set bs) \<and> x \<notin> removedButtons nr
              then map_option hidden (nodes pg x) else nodes pg x\<rparr>"
    by (rule arg_cong [where f = "\<lambda>a. pg\<lparr>nodes := a\<rparr>"]) (auto simp: fun_eq_iff)
  then show ?case
    by (simp add: hideButton_effect Cons.IH)
qed

lemma unstyled_hidden:
  "unstyled (\<lambda>x. if P x then map_option hidden (st x) else st x) = unstyled st"
  by (auto simp: unstyled_def hidden_def fun_eq_iff option.map_comp comp_def)

text \<open>
  With an engine that is blind to the style and parses every selector, the loop over
  the selectors hides the matches of the page as it was before the loop.
\<close>

lemma removeEach_stable:
  assumes "styleBlind pg0"
  shows "\<forall>sel \<in> set sels. sel \<noteq> [] \<and> engine pg0 sel (nodes pg0) \<noteq> None \<Longrightarrow>
     engine pg = engine pg0 \<Longrightarrow> unstyled (nodes pg) = unstyled (nodes pg0) \<Longrightarrow>
     removeEach sels (nr, pg) =
       Inr (fold hideButton
              (concat (map (\<lambda>sel. case engine pg0 sel (nodes pg0) of None \<Rightarrow> [] | Some els \<Rightarrow> els) sels))
              (nr, pg))"
proof (induction sels arbitrary: nr pg)
  case Nil
  then show ?case by simp
next
  case (Cons sel sels)
  from Cons.prems(1) obtain els where els: "engine pg0 sel (nodes pg0) = Some els" and ne: "sel \<noteq> []"
    by auto
  have "engine pg0 sel (nodes pg) = engine pg0 sel (nodes pg0)"
    using assms Cons.prems(3) unfolding styleBlind_def by blast
  then have same: "engine pg sel (nodes pg) = Some els"
    using Cons.prems(2) els by simp
  have q: "safeQuerySelectorAll sel pg = Inr (els, pg)"
    using same ne by (simp add: safeQuerySelectorAll_def querySelectorAll_def)
  obtain nr1 pg1 where f: "fold hideButton els (nr, pg) = (nr1, pg1)"
    by (cases "fold hideButton els (nr, pg)")
  have pg1: "engine pg1 = engine pg0" "unstyled (nodes pg1) = unstyled (nodes pg0)"
    using f Cons.prems(2,3) by (auto simp: fold_hideButton_effect unstyled_hidden)
  have "removeEach sels (nr1, pg1) =
       Inr (fold hideButton
              (concat (map (\<lambda>sel. case engine pg0 sel (nodes pg0) of None \<Rightarrow> [] | Some els \<Rightarrow> els) sels))
              (nr1, pg1))"
    using Cons.IH [OF _ pg1] Cons.prems(1) by simp
  then show ?case
    by (simp add: q f els del: fold_simps)
qed

lemma navigationSelectors_nonempty: "\<forall>sel \<in> set navigationSelectors. sel \<noteq> []"
  by (simp add: navigationSelectors_def)

text \<open>The whole pass at a shorts URL, written out.\<close>

lemma shorts_page_pass_exact:
  assumes "isShortsPage (href pg)" "extensionEnabled c" "\<not> isProcessing c" "styleBlind pg"
    and "\<forall>selector \<in> set navigationSelectors. engine pg selector (nodes pg) \<noteq> None"
  shows "processPage (c, pg) =
            (c\<lparr>scrollPreventer :=
                  \<lparr>isActive = True,
                   originalOverflow =
                     (if isActive (scrollPreventer c) then originalOverflow (scrollPreventer c)
                      else bodyOverflow pg)\<rparr>,
                navigationButtonRemover :=
                  \<lparr>removedButtons =
                     removedButtons (navigationButtonRemover c) \<union> set (navigationMatches pg)\<rparr>,
                savedTabsUI :=
                  (savedTabsUI c)\<lparr>refreshCalls :=
                     (if isHomePage (href pg) then Suc (refreshCalls (savedTabsUI c))
                      else refreshCalls (savedTabsUI c))\<rparr>\<rparr>,
             pg\<lparr>nodes :=
                  (\<lambda>x. if x \<in> set (navigationMatches pg) \<and> x \<notin> removedButtons (navigationButtonRemover c)
                       then map_option hidden (nodes pg x) else nodes pg x),
                bodyOverflow := (if isActive (scrollPreventer c) then bodyOverflow pg else ''hidden''),
                listeners :=
                  (if isActive (scrollPreventer c) then listeners pg
                   else listeners
                     (addEventListener (Window, ''keydown'', PreventKeys, False)
                       (addEventListener (Window, ''wheel'', PreventWheel, False)
                         (addEventListener (Document, ''keydown'', PreventKeys, True)
                           (addEventListener (Document, ''wheel'', PreventWheel, True) pg))))),
                console :=
                  console pg @
                    [if isHomePage (href pg) then ''[YT Detox] On homepage, showing saved tabs UI''
                     else ''[YT Detox] Not on homepage, current URL: '' @ href pg]\<rparr>)"
proof -
  define pg1 where "pg1 = snd (enable (scrollPreventer c, pg))"
  define sp1 where "sp1 = fst (enable (scrollPreventer c, pg))"
  have u: "update (scrollPreventer c, pg) = (sp1, pg1)"
    using assms(1) by (simp add: update_def pg1_def sp1_def)
  have e1: "engine pg1 = engine pg" "nodes pg1 = nodes pg" "href pg1 = href pg"
    by (simp_all add: pg1_def enable_def)
  have parse: "\<forall>sel \<in> set navigationSelectors. sel \<noteq> [] \<and> engine pg sel (nodes pg) \<noteq> None"
    using assms(5) navigationSelectors_nonempty by blast
  have r: "removeNavigationButtons (navigationButtonRemover c, pg1)
             = Inr (fold hideButton (navigationMatches pg) (navigationButtonRemover c, pg1))"
    using removeEach_stable [OF assms(4) parse, of pg1 "navigationButtonRemover c"] assms(1)
    by (simp add: removeNavigationButtons_def e1 navigationMatches_def)
  have ps: "\<And>sb' pg'. href pg' = href pg \<Longrightarrow> processShorts (sb', pg') = Inr (sb', pg')"
    using assms(1) by (simp add: processShorts_def)
  note fe = fold_hideButton_effect
    [of "navigationMatches pg" "navigationButtonRemover c" pg1, unfolded e1(2)]
  show ?thesis
  proof (cases "isActive (scrollPreventer c)")
    case True
    then have en: "sp1 = scrollPreventer c" "pg1 = pg"
      by (simp_all add: sp1_def pg1_def enable_def)
    show ?thesis
      using assms(2,3) True
      by (simp add: processPage_def tryStages_def u [unfolded en] r [unfolded en]
            fold_hideButton_effect ps Let_def refresh_def console_log_def)
  next
    case False
    then have en: "sp1 = \<lparr>isActive = True, originalOverflow = bodyOverflow pg\<rparr>"
      by (simp add: sp1_def enable_def)
    have p1: "pg1 = (addEventListener (Window, ''keydown'', PreventKeys, False)
                       (addEventListener (Window, ''wheel'', PreventWheel, False)
                         (addEventListener (Document, ''keydown'', PreventKeys, True)
                           (addEventListener (Document, ''wheel'', PreventWheel, True)
                             (pg\<lparr>bodyOverflow := ''hidden''\<rparr>)))))"
      using False by (simp add: pg1_def enable_def)
    show ?thesis
      using assms(2,3) False
      by (simp add: processPage_def tryStages_def u r fe ps e1 Let_def
            refresh_def console_log_def en)
         (simp add: p1 addEventListener_def)
  qed
qed

text \<open>
  Claim C10, as the code has it. At a URL that contains \<open>/shorts/\<close>, \<open>processShorts\<close>
  returns at once with the blocker and the page as they were: nothing is queried,
  suppressed or inserted. A page pass at such a URL leaves the blocker's sets as they
  were and allocates no overlay. With the extension enabled and selectors that parse,
  the pass is exactly this: the scroll preventer is active (the body's overflow is
  captured and set to \<open>hidden\<close> and the four listeners are added, unless it was active
  already), every button that a navigation selector matches is recorded and, if it
  was not recorded before, gets the display \<open>none\<close>, no other node is touched, one
  line is logged, and the refresh of the saved tabs is started when, and only when,
  the URL matches the home page pattern as well.
\<close>

theorem shorts_page_pass:
  assumes "isShortsPage (href pg)"
  shows "processShorts (sb, pg) = Inr (sb, pg)
     \<and> shortsBlocker (fst (processPage (c, pg))) = shortsBlocker c
     \<and> fresh (snd (processPage (c, pg))) = fresh pg
     \<and> clickHandlers (snd (processPage (c, pg))) = clickHandlers pg
     \<and> update (sp, pg) = enable (sp, pg)
     \<and> removeNavigationButtons (nr, pg) = removeEach navigationSelectors (nr, pg)
     \<and> (extensionEnabled c \<and> \<not> isProcessing c \<and> styleBlind pg
          \<and> (\<forall>selector \<in> set navigationSelectors. engine pg selector (nodes pg) \<noteq> None) \<longrightarrow>
          processPage (c, pg) =
            (c\<lparr>scrollPreventer :=
                  \<lparr>isActive = True,
                   originalOverflow =
                     (if isActive (scrollPreventer c) then originalOverflow (scrollPreventer c)
                      else bodyOverflow pg)\<rparr>,
                navigationButtonRemover :=
                  \<lparr>removedButtons =
                     removedButtons (navigationButtonRemover c) \<union> set (navigationMatches pg)\<rparr>,
                savedTabsUI :=
                  (savedTabsUI c)\<lparr>refreshCalls :=
                     (if isHomePage (href pg) then Suc (refreshCalls (savedTabsUI c))
                      else refreshCalls (savedTabsUI c))\<rparr>\<rparr>,
             pg\<lparr>nodes :=
                  (\<lambda>x. if x \<in> set (navigationMatches pg) \<and> x \<notin> removedButtons (navigationButtonRemover c)
                       then map_option hidden (nodes pg x) else nodes pg x),
                bodyOverflow := (if isActive (scrollPreventer c) then bodyOverflow pg else ''hidden''),
                listeners :=
                  (if isActive (scrollPreventer c) then listeners pg
                   else listeners
                     (addEventListener (Window, ''keydown'', PreventKeys, False)
                       (addEventListener (Window, ''wheel'', PreventWheel, False)
                         (addEventListener (Document, ''keydown'', PreventKeys, True)
                           (addEventListener (Document, ''wheel'', PreventWheel, True) pg))))),
                console :=
                  console pg @
                    [if isHomePage (href pg) then ''[YT Detox] On homepage, showing saved tabs UI''
                     else ''[YT Detox] Not on homepage, current URL: '' @ href pg]\<rparr>))"
proof -
  have stages: "update (sp, pg) = enable (sp, pg)"
    "removeNavigationButtons (nr, pg) = removeEach navigationSelectors (nr, pg)"
    using assms by (simp_all add: update_def removeNavigationButtons_def)
  have ps: "\<And>sb' pg'. href pg' = href pg \<Longrightarrow> processShorts (sb', pg') = Inr (sb', pg')"
    using assms by (simp add: processShorts_def)
  obtain sp1 pg1 where u: "update (scrollPreventer c, pg) = (sp1, pg1)"
    by (cases "update (scrollPreventer c, pg)")
  have f1: "href pg1 = href pg" "fresh pg1 = fresh pg" "clickHandlers pg1 = clickHandlers pg"
    using update_frame [of "(scrollPreventer c, pg)"] by (simp_all add: u)
  have frame: "shortsBlocker (fst (processPage (c, pg))) = shortsBlocker c
     \<and> fresh (snd (processPage (c, pg))) = fresh pg
     \<and> clickHandlers (snd (processPage (c, pg))) = clickHandlers pg"
  proof (cases "removeNavigationButtons (navigationButtonRemover c, pg1)")
    case (Inl x)
    with removeNavigationButtons_frame [of "(navigationButtonRemover c, pg1)" undefined x] f1
    show ?thesis
      by (simp add: ps processPage_def tryStages_def u console_error_def console_log_def Let_def)
  next
    case (Inr r)
    obtain nr2 pg2 where r: "r = (nr2, pg2)" by (cases r)
    from removeNavigationButtons_frame [of "(navigationButtonRemover c, pg1)" r undefined] Inr f1
    have f2: "href pg2 = href pg" "fresh pg2 = fresh pg" "clickHandlers pg2 = clickHandlers pg"
      by (simp_all add: r)
    show ?thesis using Inr f2
      by (simp add: ps processPage_def tryStages_def u r console_error_def console_log_def Let_def)
  qed
  show ?thesis
    using ps [of pg sb] stages frame shorts_page_pass_exact [OF assms, of c]
    by blast
qed

text \<open>
  On the shorts page with a player and two buttons: the buttons are hidden and
  recorded, the scroll preventer is active, and the player, which a selector of the
  shorts matches, is left as it is.
\<close>

lemma reel_facts:
  "isShortsPage (href reel_page)"
  "\<not> isHomePage (href reel_page)"
  "styleBlind reel_page"
  "\<forall>selector \<in> set navigationSelectors. engine reel_page selector (nodes reel_page) \<noteq> None"
  "navigationMatches reel_page = [2, 2, 3]"
  "querySelectorAll ''ytd-reel-video-renderer'' reel_page = Inr [1]"
  by (simp_all add: reel_page_def isShortsPage_def isHomePage_def skip_def styleBlind_def
        reel_engine_def navigationMatches_def navigationSelectors_def querySelectorAll_def)

theorem shorts_page_pass_witness:
  "isShortsPage (href reel_page) \<and> styleBlind reel_page
   \<and> navigationMatches reel_page = [2, 2, 3]
   \<and> querySelectorAll ''ytd-reel-video-renderer'' reel_page = Inr [1]
   \<and> processShorts (new_ShortsBlocker, reel_page) = Inr (new_ShortsBlocker, reel_page)
   \<and> scrollPreventer (fst (processPage (new_YouTubeDetoxController reel_page, reel_page)))
       = \<lparr>isActive = True, originalOverflow = ''auto''\<rparr>
   \<and> bodyOverflow (snd (processPage (new_YouTubeDetoxController reel_page, reel_page))) = ''hidden''
   \<and> navigationButtonRemover (fst (processPage (new_YouTubeDetoxController reel_page, reel_page)))
       = \<lparr>removedButtons = {2, 3}\<rparr>
   \<and> map (\<lambda>x. map_option style_display
                 (nodes (snd (processPage (new_YouTubeDetoxController reel_page, reel_page))) x))
         [1, 2, 3] = [Some '''', Some ''none'', Some ''none'']
   \<and> shortsBlocker (fst (processPage (new_YouTubeDetoxController reel_page, reel_page)))
       = new_ShortsBlocker
   \<and> refreshCalls (savedTabsUI (fst (processPage (new_YouTubeDetoxController reel_page, reel_page)))) = 0"
proof -
  let ?c = "new_YouTubeDetoxController reel_page"
  have en: "extensionEnabled ?c \<and> \<not> isProcessing ?c \<and> styleBlind reel_page
     \<and> (\<forall>selector \<in> set navigationSelectors. engine reel_page selector (nodes reel_page) \<noteq> None)"
    using reel_facts(3,4) by (simp add: new_YouTubeDetoxController_def)
  note t = shorts_page_pass [OF reel_facts(1), of new_ShortsBlocker ?c]
  from t en have p: "processPage (?c, reel_page) =
            ((new_YouTubeDetoxController reel_page)\<lparr>scrollPreventer :=
                  \<lparr>isActive = True,
                   originalOverflow =
                     (if isActive (scrollPreventer (new_YouTubeDetoxController reel_page)) then originalOverflow (scrollPreventer (new_YouTubeDetoxController reel_page))
                      else bodyOverflow reel_page)\<rparr>,
                navigationButtonRemover :=
                  \<lparr>removedButtons =
                     removedButtons (navigationButtonRemover (new_YouTubeDetoxController reel_page)) \<union> set (navigationMatches reel_page)\<rparr>,
                savedTabsUI :=
                  (savedTabsUI (new_YouTubeDetoxController reel_page))\<lparr>refreshCalls :=
                     (if isHomePage (href reel_page) then Suc (refreshCalls (savedTabsUI (new_YouTubeDetoxController reel_page)))
                      else refreshCalls (savedTabsUI (new_YouTubeDetoxController reel_page)))\<rparr>\<rparr>,
             reel_page\<lparr>nodes :=
                  (\<lambda>x. if x \<in> set (navigationMatches reel_page) \<and> x \<notin> removedButtons (navigationButtonRemover (new_YouTubeDetoxController reel_page))
                       then map_option hidden (nodes reel_page x) else nodes reel_page x),
                bodyOverflow := (if isActive (scrollPreventer (new_YouTubeDetoxController reel_page)) then bodyOverflow reel_page else ''hidden''),
                listeners :=
                  (if isActive (scrollPreventer (new_YouTubeDetoxController reel_page)) then listeners reel_page
                   else listeners
                     (addEventListener (Window, ''keydown'', PreventKeys, False)
                       (addEventListener (Window, ''wheel'', PreventWheel, False)
                         (addEventListener (Document, ''keydown'', PreventKeys, True)
                           (addEventListener (Document, ''wheel'', PreventWheel, True) reel_page))))),
                console :=
                  console reel_page @
                    [if isHomePage (href reel_page) then ''[YT Detox] On homepage, showing saved tabs UI''
                     else ''[YT Detox] Not on homepage, current URL: '' @ href reel_page]\<rparr>)"
    by blast
  from t have s: "processShorts (new_ShortsBlocker, reel_page) = Inr (new_ShortsBlocker, reel_page)"
    by blast
  show ?thesis
    unfolding p
    using reel_facts s
    by (simp add: new_YouTubeDetoxController_def new_ScrollPreventer_def
          new_NavigationButtonRemover_def new_SavedTabsUI_def hidden_def insert_commute)
       (simp add: reel_page_def reel_store_def elem_def)
qed

text \<open>
  Claim C10 as the specification states it (at a URL that contains \<open>/shorts/\<close> only
  the scroll prevention and the removal of the navigation buttons run) fails at a home
  page URL whose query string holds \<open>/shorts/\<close>: the URL matches both patterns, and the
  pass starts the refresh of the saved tabs as well.
\<close>

theorem refresh_runs_at_overlapping_url:
  "isShortsPage (href overlap_page) \<and> isHomePage (href overlap_page)
   \<and> refreshCalls (savedTabsUI (new_YouTubeDetoxController overlap_page)) = 0
   \<and> refreshCalls (savedTabsUI (fst (processPage (new_YouTubeDetoxController overlap_page, overlap_page)))) = 1
   \<and> console (snd (processPage (new_YouTubeDetoxController overlap_page, overlap_page)))
       = [''[YT Detox] On homepage, showing saved tabs UI'']"
proof -
  let ?c = "new_YouTubeDetoxController overlap_page"
  have a: "isShortsPage (href overlap_page)" "isHomePage (href overlap_page)"
    by (simp_all add: overlap_page_def isShortsPage_def isHomePage_def skip_def lineTerminator_def)
  have b: "extensionEnabled ?c" "\<not> isProcessing ?c" "styleBlind overlap_page"
    "\<forall>selector \<in> set navigationSelectors. engine overlap_page selector (nodes overlap_page) \<noteq> None"
    by (simp_all add: new_YouTubeDetoxController_def styleBlind_def overlap_page_def feed_page_def
          feed_engine_def)
  show ?thesis
    unfolding shorts_page_pass_exact [OF a(1) b]
    using a by (simp add: new_YouTubeDetoxController_def new_SavedTabsUI_def)
                (simp add: overlap_page_def feed_page_def)
qed

section \<open>Properties of single suppressions\<close>

lemma hideShort_skip:
  "e \<in> hiddenShorts sb \<or> e \<in> sessionVisible sb \<Longrightarrow> hideShort e (sb, pg) = (sb, pg)"
  by (auto simp: hideShort_def)

text \<open>
  Claim C9, as the code has it. When the element has no parent, the guard
  \<open>if (shortsElement.parentNode)\<close> skips the insertion without a word: the overlay
  was created but is in no document, the element is not marked, its node (with its
  display style) and every other node that was there are as before, and nothing is
  written to the console. The loop of \<open>processShorts\<close> goes on with the elements
  that follow.
\<close>

theorem hideShort_without_parent:
  assumes "nodes pg e = Some n" "parentNode n = None" "nodes pg (fresh pg) = None"
    and "e \<notin> hiddenShorts sb" "e \<notin> sessionVisible sb"
  shows "hideShort e (sb, pg) = (sb, snd (createOverlay e pg))
     \<and> console (snd (hideShort e (sb, pg))) = console pg
     \<and> nodes (snd (hideShort e (sb, pg))) e = Some n
     \<and> (\<forall>x. x \<noteq> fresh pg \<longrightarrow> nodes (snd (hideShort e (sb, pg))) x = nodes pg x)
     \<and> parentOf (nodes (snd (hideShort e (sb, pg)))) (fresh pg) = None
     \<and> fold hideShort (e # rest) (sb, pg) = fold hideShort rest (sb, snd (createOverlay e pg))"
proof -
  from assms(1,3) have ne: "e \<noteq> fresh pg" by auto
  have "parentOf (nodes pg) e = None"
    using assms(1,2) by (simp add: parentOf_def)
  then have p: "parentOf (nodes (snd (createOverlay e pg))) e = None"
    using ne by simp
  have h: "hideShort e (sb, pg) = (sb, snd (createOverlay e pg))"
    using p by (simp add: hideShort_cases [OF assms(4,5)] Let_def)
  show ?thesis
    using assms(1) ne by (simp add: h) (simp add: createOverlay_def Let_def)
qed

text \<open>
  On the feed, node 4 has no parent: it is skipped in silence, and node 3 after it is
  suppressed.
\<close>

theorem hideShort_without_parent_witness:
  "nodes feed_page 4 = Some (elem None []) \<and> nodes feed_page (fresh feed_page) = None
   \<and> console (snd (hideShort 4 (new_ShortsBlocker, feed_page))) = []
   \<and> nodes (snd (hideShort 4 (new_ShortsBlocker, feed_page))) 4 = Some (elem None [])
   \<and> hiddenShorts (fst (fold hideShort [4, 3] (new_ShortsBlocker, feed_page))) = {3}"
proof -
  have a: "nodes feed_page 4 = Some (elem None [])" "parentNode (elem None []) = None"
    "nodes feed_page (fresh feed_page) = None"
    "4 \<notin> hiddenShorts new_ShortsBlocker" "4 \<notin> sessionVisible new_ShortsBlocker"
    by (simp_all add: feed_page_def feed_store_def elem_def new_ShortsBlocker_def)
  have c: "console feed_page = []"
    by (simp add: feed_page_def)
  have f: "hiddenShorts (fst (fold hideShort [3] (new_ShortsBlocker, snd (createOverlay 4 feed_page)))) = {3}"
    by (simp add: eval_defs)
  show ?thesis
    using hideShort_without_parent [OF a, of "[3]"] a(1,3) c f
    by (elim conjE) (intro conjI; simp only:)
qed

text \<open>
  Claim C9 as the specification states it (the failure is logged) fails on node 4 of
  the feed: the element is left alone and the console stays empty.
\<close>

theorem missing_parent_is_not_logged:
  "parentOf (nodes feed_page) 4 = None
   \<and> 4 \<notin> hiddenShorts (fst (hideShort 4 (new_ShortsBlocker, feed_page)))
   \<and> console (snd (hideShort 4 (new_ShortsBlocker, feed_page))) = []"
  by (simp add: eval_defs)

section \<open>Properties of the failure handling of the page pass\<close>

lemma legacy_find:
  "findShortsElements legacy_page =
     Inl (SyntaxError,
          console_warn ''[YT Detox] Invalid selector: ytd-rich-item-renderer:has([aria-label*=\"Shorts\"])''
            legacy_page)"
  by (simp add: findShortsElements_def SHORTS_CONTAINERS_def safeQuerySelectorAll_def
      querySelectorAll_def legacy_page_def legacy_engine_def feed_engine_def feed_page_def
      console_warn_def)

lemma legacy_stages:
  "update (new_ScrollPreventer, legacy_page) = (new_ScrollPreventer, legacy_page)"
  "removeNavigationButtons (new_NavigationButtonRemover, legacy_page)
     = Inr (new_NavigationButtonRemover, legacy_page)"
  "processShorts (new_ShortsBlocker, legacy_page) =
     Inl (SyntaxError, new_ShortsBlocker,
          console_warn ''[YT Detox] Invalid selector: ytd-rich-item-renderer:has([aria-label*=\"Shorts\"])''
            legacy_page)"
proof -
  have h: "href legacy_page = ''https://www.youtube.com/''"
    by (simp add: legacy_page_def feed_page_def)
  have ns: "\<not> isShortsPage ''https://www.youtube.com/''"
    by (simp add: isShortsPage_def)
  show "update (new_ScrollPreventer, legacy_page) = (new_ScrollPreventer, legacy_page)"
    by (simp add: update_def h ns disable_def new_ScrollPreventer_def)
  show "removeNavigationButtons (new_NavigationButtonRemover, legacy_page)
          = Inr (new_NavigationButtonRemover, legacy_page)"
    by (simp add: removeNavigationButtons_def h ns)
  show "processShorts (new_ShortsBlocker, legacy_page) =
     Inl (SyntaxError, new_ShortsBlocker,
          console_warn ''[YT Detox] Invalid selector: ytd-rich-item-renderer:has([aria-label*=\"Shorts\"])''
            legacy_page)"
    by (simp add: processShorts_def h ns legacy_find)
qed

lemma picky_stage:
  "removeNavigationButtons (new_NavigationButtonRemover, snd (update (new_ScrollPreventer, picky_page)))
     = Inl (SyntaxError, new_NavigationButtonRemover,
            console_warn ''[YT Detox] Invalid selector: .navigation-button''
              (snd (update (new_ScrollPreventer, picky_page))))"
proof -
  have s: "isShortsPage (href picky_page)"
    by (simp add: picky_page_def shorts_page_def isShortsPage_def)
  have e: "engine picky_page = picky_engine"
    by (simp add: picky_page_def)
  show ?thesis
    by (simp add: removeNavigationButtons_def s navigationSelectors_def safeQuerySelectorAll_def
        querySelectorAll_def e picky_engine_def)
qed

text \<open>
  Claim C3, as the code has it. One \<open>try\<close> block holds all four stages: a stage that
  throws ends the block, the one handler logs the error once, the stages after it
  are not run in that pass, and \<open>finally\<close> clears the processing flag. When the
  removal of the navigation buttons throws, the shorts are not processed and the
  saved tabs are not refreshed; when the processing of the shorts throws, the saved
  tabs are not refreshed.
\<close>

theorem stage_failure_ends_the_pass:
  assumes "extensionEnabled c" "\<not> isProcessing c"
  shows "\<not> isProcessing (fst (processPage (c, pg)))
     \<and> (tryStages (c\<lparr>isProcessing := True\<rparr>, pg) = Inl (err, c1, pg1) \<longrightarrow>
          processPage (c, pg)
            = (c1\<lparr>isProcessing := False\<rparr>, console_error ''[YT Detox] Page processing error:'' pg1)
          \<and> savedTabsUI c1 = savedTabsUI c)
     \<and> (removeNavigationButtons (navigationButtonRemover c, snd (update (scrollPreventer c, pg))) = Inl x \<longrightarrow>
          tryStages (c\<lparr>isProcessing := True\<rparr>, pg)
            = Inl (fst x,
                   c\<lparr>isProcessing := True, scrollPreventer := fst (update (scrollPreventer c, pg)),
                     navigationButtonRemover := fst (snd x)\<rparr>,
                   snd (snd x)))
     \<and> (removeNavigationButtons (navigationButtonRemover c, snd (update (scrollPreventer c, pg)))
            = Inr (nr, pg2)
          \<and> processShorts (shortsBlocker c, pg2) = Inl y \<longrightarrow>
          tryStages (c\<lparr>isProcessing := True\<rparr>, pg)
            = Inl (fst y,
                   c\<lparr>isProcessing := True, scrollPreventer := fst (update (scrollPreventer c, pg)),
                     navigationButtonRemover := nr, shortsBlocker := fst (snd y)\<rparr>,
                   snd (snd y)))"
  using assms
  by (auto simp: processPage_def tryStages_def Let_def split: sum.splits prod.splits if_splits)

text \<open>
  On the feed in the browser without \<open>:has()\<close> the shorts stage throws: the pass ends
  with the controller as it was and two lines on the console. On the shorts page with
  the engine that refuses a button selector the second stage throws: the blocker is
  as it was.
\<close>

theorem stage_failure_ends_the_pass_witness:
  "extensionEnabled (new_YouTubeDetoxController legacy_page)
   \<and> \<not> isProcessing (new_YouTubeDetoxController legacy_page)
   \<and> processPage (new_YouTubeDetoxController legacy_page, legacy_page)
       = (new_YouTubeDetoxController legacy_page,
          console_error ''[YT Detox] Page processing error:''
            (console_warn ''[YT Detox] Invalid selector: ytd-rich-item-renderer:has([aria-label*=\"Shorts\"])''
              legacy_page))
   \<and> shortsBlocker (fst (processPage (new_YouTubeDetoxController picky_page, picky_page)))
       = new_ShortsBlocker
   \<and> \<not> isProcessing (fst (processPage (new_YouTubeDetoxController picky_page, picky_page)))"
proof -
  let ?c = "new_YouTubeDetoxController legacy_page"
  let ?w = "console_warn ''[YT Detox] Invalid selector: ytd-rich-item-renderer:has([aria-label*=\"Shorts\"])'' legacy_page"
  have en: "extensionEnabled ?c" "\<not> isProcessing ?c"
    by (simp_all add: new_YouTubeDetoxController_def)
  have st: "scrollPreventer ?c = new_ScrollPreventer"
    "navigationButtonRemover ?c = new_NavigationButtonRemover"
    "shortsBlocker ?c = new_ShortsBlocker"
    by (simp_all add: new_YouTubeDetoxController_def)
  note t = stage_failure_ends_the_pass [OF en, of legacy_page SyntaxError
      "?c\<lparr>isProcessing := True\<rparr>" ?w undefined new_NavigationButtonRemover legacy_page
      "(SyntaxError, new_ShortsBlocker, ?w)"]
  have ts: "tryStages (?c\<lparr>isProcessing := True\<rparr>, legacy_page)
              = Inl (SyntaxError, ?c\<lparr>isProcessing := True\<rparr>, ?w)"
    using t by (simp add: st legacy_stages)
  have p1: "processPage (?c, legacy_page)
              = (?c, console_error ''[YT Detox] Page processing error:'' ?w)"
    using t ts by (simp add: new_YouTubeDetoxController_def)
  let ?d = "new_YouTubeDetoxController picky_page"
  have en2: "extensionEnabled ?d" "\<not> isProcessing ?d"
    by (simp_all add: new_YouTubeDetoxController_def)
  have st2: "scrollPreventer ?d = new_ScrollPreventer"
    "navigationButtonRemover ?d = new_NavigationButtonRemover"
    "shortsBlocker ?d = new_ShortsBlocker"
    by (simp_all add: new_YouTubeDetoxController_def)
  let ?x = "(SyntaxError, new_NavigationButtonRemover,
            console_warn ''[YT Detox] Invalid selector: .navigation-button''
              (snd (update (new_ScrollPreventer, picky_page))))"
  note t2 = stage_failure_ends_the_pass [OF en2, of picky_page SyntaxError
      "?d\<lparr>isProcessing := True, scrollPreventer := fst (update (new_ScrollPreventer, picky_page)),
           navigationButtonRemover := new_NavigationButtonRemover\<rparr>"
      "snd (snd ?x)" ?x]
  have p2: "shortsBlocker (fst (processPage (?d, picky_page))) = new_ShortsBlocker
      \<and> \<not> isProcessing (fst (processPage (?d, picky_page)))"
    using t2 by (simp add: st2 picky_stage)
  show ?thesis using en p1 p2 by simp
qed

text \<open>
  Claim C3 as the specification states it (a failure in one stage does not keep the
  later stages of the same run from executing) fails on the home page in the browser
  without \<open>:has()\<close>: the shorts stage throws, and the refresh of the saved tabs, the
  stage after it, is not started.
\<close>

theorem failed_stage_skips_saved_tabs_refresh:
  "isHomePage (href legacy_page)
   \<and> refreshCalls (savedTabsUI (fst (processPage (new_YouTubeDetoxController legacy_page, legacy_page)))) = 0
   \<and> console (snd (processPage (new_YouTubeDetoxController legacy_page, legacy_page))) =
       [''[YT Detox] Invalid selector: ytd-rich-item-renderer:has([aria-label*=\"Shorts\"])'',
        ''[YT Detox] Page processing error:'']"
proof -
  have h: "href legacy_page = ''https://www.youtube.com/''"
    by (simp add: legacy_page_def feed_page_def)
  have hp: "isHomePage ''https://www.youtube.com/''"
    by (simp add: isHomePage_def skip_def)
  show ?thesis
    by (simp add: processPage_def tryStages_def new_YouTubeDetoxController_def legacy_stages h hp
        new_SavedTabsUI_def console_error_def console_warn_def)
       (simp add: legacy_page_def feed_page_def)
qed

text \<open>With an engine that parses every selector the same pass starts the refresh.\<close>

lemma href_hideShort [simp]: "href (snd (hideShort e s)) = href (snd s)"
  by (cases s)
     (auto simp: hideShort_def createOverlay_def console_error_def set_display_def Let_def
       split: option.splits sum.splits)

lemma href_fold_hideShort [simp]: "href (snd (fold hideShort es s)) = href (snd s)"
  by (induction es arbitrary: s) simp_all

lemma modern_pass_refreshes:
  "refreshCalls (savedTabsUI (fst (processPage (new_YouTubeDetoxController feed_page, feed_page)))) = 1"
proof -
  have h: "href feed_page = ''https://www.youtube.com/''"
    by (simp add: feed_page_def)
  have hp: "isHomePage ''https://www.youtube.com/''"
    by (simp add: isHomePage_def skip_def)
  have ns: "\<not> isShortsPage ''https://www.youtube.com/''"
    by (simp add: isShortsPage_def)
  have f: "findShortsElements feed_page = Inr ([1, 2, 3], feed_page)"
    by (simp add: findShortsElements_def SHORTS_CONTAINERS_def safeQuerySelectorAll_def
        querySelectorAll_def feed_engine_def feed_page_def)
  show ?thesis
    by (simp add: processPage_def tryStages_def new_YouTubeDetoxController_def update_def h ns hp
        disable_def new_ScrollPreventer_def removeNavigationButtons_def processShorts_def f
        refresh_def new_SavedTabsUI_def case_prod_beta Let_def del: fold_simps)
qed

section \<open>Properties of the debounced pass\<close>

lemma debounced_arms:
  "onlyDebounceTimer s \<Longrightarrow> armed (app s) (debounced DEBOUNCE_DELAY s)"
  by (cases "timerTable s"; cases "tl (timerTable s)")
     (auto simp: onlyDebounceTimer_def armed_def debounced_def setTimeout_def clearTimeout_def
       split: option.splits list.splits)

lemma elapse_in_window:
  assumes "armed a s" "d < DEBOUNCE_DELAY"
  shows "onlyDebounceTimer (elapse func d s) \<and> app (elapse func d s) = a"
  using assms
  by (auto simp: armed_def onlyDebounceTimer_def elapse_def due_def Let_def split: option.splits)

lemma observer_arms:
  assumes "onlyDebounceTimer s" "extensionEnabled (fst (app s))" "filter isRelevant batch \<noteq> []"
  shows "armed (app s) (observerCallback batch s)"
  using assms debounced_arms [of s] by (simp add: observerCallback_def Let_def)

lemma deliver_armed:
  assumes "armed a s" "extensionEnabled (fst a)" "list_all inWindow rest"
  shows "armed a (deliver func rest s)"
  using assms
proof (induction rest arbitrary: s)
  case Nil
  then show ?case by simp
next
  case (Cons b rest)
  from Cons.prems have w: "fst b < DEBOUNCE_DELAY" "filter isRelevant (snd b) \<noteq> []"
    by (simp_all add: inWindow_def)
  from elapse_in_window [OF Cons.prems(1) w(1), of func]
  have e: "onlyDebounceTimer (elapse func (fst b) s)" "app (elapse func (fst b) s) = a"
    by simp_all
  have "armed a (observerCallback (snd b) (elapse func (fst b) s))"
    using observer_arms [OF e(1) _ w(2)] Cons.prems(2) e(2) by simp
  then show ?case using Cons by simp
qed

lemma elapse_fires_once:
  assumes "armed a s" "DEBOUNCE_DELAY \<le> d"
  shows "app (elapse func d s) = func a \<and> timerTable (elapse func d s) = []"
  using assms by (auto simp: armed_def elapse_def due_def Let_def split: option.splits)

text \<open>
  Claim C6: a first qualifying batch and then any number of further qualifying
  batches, each less than the delay after the one before, run no pass and leave
  exactly one timer pending, due one delay after the last batch (each batch restarts
  it); once the delay has passed after the last batch, the callback has run exactly
  once (the state is \<open>func\<close> applied once to the state from before the burst, for
  any \<open>func\<close>, so also for \<open>processPage\<close>) and no timer is left. The number of
  batches is \<open>1 + length rest\<close>.
\<close>

theorem burst_runs_one_pass:
  assumes "onlyDebounceTimer s" "extensionEnabled (fst (app s))"
    and "filter isRelevant first \<noteq> []" "list_all inWindow rest" "DEBOUNCE_DELAY \<le> d"
  shows "app (elapse func d (deliver func rest (observerCallback first s))) = func (app s)
     \<and> timerTable (elapse func d (deliver func rest (observerCallback first s))) = []
     \<and> app (deliver func rest (observerCallback first s)) = app s
     \<and> map snd (timerTable (deliver func rest (observerCallback first s)))
         = [clock (deliver func rest (observerCallback first s)) + DEBOUNCE_DELAY]"
proof -
  have "armed (app s) (deliver func rest (observerCallback first s))"
    by (rule deliver_armed [OF observer_arms [OF assms(1,2,3)] assms(2,4)])
  then show ?thesis
    using elapse_fires_once [OF _ assms(5), of "app s" _ func]
    by (auto simp: armed_def split: option.splits)
qed

text \<open>
  Three batches of the page's own on the feed, 200 and 999 milliseconds apart, and
  then a second of quiet: one pass.
\<close>

theorem burst_runs_one_pass_witness:
  "onlyDebounceTimer idle_loop \<and> extensionEnabled (fst (app idle_loop))
   \<and> filter isRelevant page_batch \<noteq> []
   \<and> list_all inWindow [(200, page_batch), (999, page_batch)]
   \<and> app (elapse processPage 1000
        (deliver processPage [(200, page_batch), (999, page_batch)]
          (observerCallback page_batch idle_loop)))
       = processPage (app idle_loop)
   \<and> map snd (timerTable
        (deliver processPage [(200, page_batch), (999, page_batch)]
          (observerCallback page_batch idle_loop)))
       = [clock (deliver processPage [(200, page_batch), (999, page_batch)]
                  (observerCallback page_batch idle_loop)) + DEBOUNCE_DELAY]"
proof -
  have r: "filter isRelevant page_batch \<noteq> []"
    by (simp add: page_batch_def isRelevant_def inOwnContainer_def ownNode_def has_id_def
        has_class_def hasAttribute_def)
  have a: "onlyDebounceTimer idle_loop" "extensionEnabled (fst (app idle_loop))"
    by (simp_all add: idle_loop_def onlyDebounceTimer_def new_YouTubeDetoxController_def)
  have w: "list_all inWindow [(200, page_batch), (999, page_batch)]"
    using r by (simp add: inWindow_def DEBOUNCE_DELAY_def)
  have d: "DEBOUNCE_DELAY \<le> 1000"
    by (simp add: DEBOUNCE_DELAY_def)
  show ?thesis
    using burst_runs_one_pass [OF a r w d, of processPage] a r w by simp
qed

section \<open>Properties of the search for shorts\<close>

lemma new_Set_first_seen:
  "new_Set members xs = members @ filter (\<lambda>y. y \<notin> set members) (first_seen xs)"
proof (induction xs arbitrary: members)
  case Nil
  then show ?case by simp
next
  case (Cons x xs)
  have f: "\<And>P l. filter P (removeAll x l) = filter (\<lambda>y. P y \<and> y \<noteq> x) l"
    by (simp add: removeAll_filter_not_eq conj_commute eq_commute)
  show ?case
  proof (cases "x \<in> set members")
    case True
    then have "filter (\<lambda>y. y \<notin> set members \<and> y \<noteq> x) (first_seen xs)
                 = filter (\<lambda>y. y \<notin> set members) (first_seen xs)"
      by (intro filter_cong) auto
    with True show ?thesis by (simp add: Cons.IH f)
  next
    case False
    then show ?thesis by (simp add: Cons.IH f conj_commute)
  qed
qed

lemma set_first_seen [simp]: "set (first_seen xs) = set xs"
  by (induction xs) auto

lemma distinct_first_seen [simp]: "distinct (first_seen xs)"
  by (induction xs) (auto simp: distinct_removeAll)

lemma collectShorts_all_parse:
  assumes "\<forall>sel \<in> set sels. sel \<noteq> [] \<and> engine pg sel (nodes pg) \<noteq> None"
  shows "collectShorts sels allShorts pg
           = Inr (allShorts @ concat (map (\<lambda>sel. the (engine pg sel (nodes pg))) sels), pg)"
  using assms
  by (induction sels arbitrary: allShorts)
     (auto simp: safeQuerySelectorAll_def querySelectorAll_def)

text \<open>
  What holds of Claim C8 on the code: when the engine parses every selector of the
  list, the result is the concatenation of the matches in the order of the list,
  with the first occurrence of each element kept; it has no duplicates, and the page
  is as before.
\<close>

lemma findShortsElements_all_parse:
  assumes "\<forall>sel \<in> set SHORTS_CONTAINERS. engine pg sel (nodes pg) \<noteq> None"
  shows "findShortsElements pg
           = Inr (first_seen (concat (map (\<lambda>sel. the (engine pg sel (nodes pg))) SHORTS_CONTAINERS)), pg)"
proof -
  have "\<forall>sel \<in> set SHORTS_CONTAINERS. sel \<noteq> []"
    by (simp add: SHORTS_CONTAINERS_def)
  with assms have "\<forall>sel \<in> set SHORTS_CONTAINERS. sel \<noteq> [] \<and> engine pg sel (nodes pg) \<noteq> None"
    by blast
  from collectShorts_all_parse [OF this, of "[]"] show ?thesis
    by (simp add: findShortsElements_def new_Set_first_seen)
qed

text \<open>
  Claim C8 on the feed in the browser without \<open>:has()\<close>. The first two selectors
  match nodes 1, 2 and 3; the last one does not parse. The handler of
  \<open>safeQuerySelectorAll\<close> warns and then throws itself, from
  \<open>document.querySelectorAll('')\<close>: the scan is aborted, and \<open>processShorts\<close> suppresses
  nothing. With the engine that parses the whole list the same page gives the three
  nodes.
\<close>

theorem rejected_selector_aborts_scan:
  "querySelectorAll ''[is-shorts]'' legacy_page = Inr [1, 2]
   \<and> querySelectorAll ''ytd-shorts'' legacy_page = Inr [2, 3]
   \<and> querySelectorAll ''ytd-rich-item-renderer:has([aria-label*=\"Shorts\"])'' legacy_page
       = Inl SyntaxError
   \<and> findShortsElements legacy_page =
       Inl (SyntaxError,
            console_warn ''[YT Detox] Invalid selector: ytd-rich-item-renderer:has([aria-label*=\"Shorts\"])''
              legacy_page)
   \<and> processShorts (new_ShortsBlocker, legacy_page) =
       Inl (SyntaxError, new_ShortsBlocker,
            console_warn ''[YT Detox] Invalid selector: ytd-rich-item-renderer:has([aria-label*=\"Shorts\"])''
              legacy_page)
   \<and> findShortsElements feed_page = Inr ([1, 2, 3], feed_page)"
proof -
  have q: "querySelectorAll ''[is-shorts]'' legacy_page = Inr [1, 2]"
    "querySelectorAll ''ytd-shorts'' legacy_page = Inr [2, 3]"
    "querySelectorAll ''ytd-rich-item-renderer:has([aria-label*=\"Shorts\"])'' legacy_page
       = Inl SyntaxError"
    by (simp_all add: querySelectorAll_def legacy_page_def legacy_engine_def feed_engine_def)
  have f: "findShortsElements feed_page = Inr ([1, 2, 3], feed_page)"
    by (simp add: findShortsElements_def SHORTS_CONTAINERS_def safeQuerySelectorAll_def
        querySelectorAll_def feed_engine_def feed_page_def)
  show ?thesis
    using q f legacy_find legacy_stages(3) by simp
qed

section \<open>Properties of navigation\<close>

lemma app_handleNavigation:
  assumes "app s = (c, pg)" "href pg \<noteq> currentUrl c"
  shows "shortsBlocker (fst (app (handleNavigation s))) = resetSession (shortsBlocker c)"
    and "currentUrl (fst (app (handleNavigation s))) = href pg"
    and "timerTable (handleNavigation s) = timerTable s @ [(nextTimer s, clock s + 100)]"
  using assms
  by (simp_all add: handleNavigation_def Let_def setTimeout_def remove_def split: option.splits prod.splits)

lemma navigating_facts:
  "href (snd (app navigating)) \<noteq> currentUrl (fst (app navigating))"
  "shortsBlocker (fst (app navigating)) = \<lparr>hiddenShorts = {1, 2}, sessionVisible = {1}\<rparr>"
  "map_option style_display (nodes (snd (app navigating)) 1) = Some ''''"
  "map_option style_display (nodes (snd (app navigating)) 5) = Some ''none''"
  "href (snd (app navigating)) = ''https://www.youtube.com/results?search_query=x''"
  "engine (snd (app navigating)) = feed_engine"
  by (simp_all add: navigating_def new_YouTubeDetoxController_def feed_page_def revealed_feed_def
       eval_defs insert_commute)

lemma navigated_state:
  "handleNavigation navigating =
     \<lparr>clock = 0, timerTable = [(0, 100)], nextTimer = 1, timeoutId = None,
      app = ((fst (app navigating))\<lparr>currentUrl := ''https://www.youtube.com/results?search_query=x'',
                shortsBlocker := \<lparr>hiddenShorts = {1, 2}, sessionVisible = {}\<rparr>,
                navigationButtonRemover := new_NavigationButtonRemover\<rparr>,
             snd (app navigating))\<rparr>"
  by (simp add: handleNavigation_def navigating_def new_YouTubeDetoxController_def remove_def
        new_SavedTabsUI_def setTimeout_def revealed_feed_def eval_defs reset_def
        new_NavigationButtonRemover_def insert_commute)

lemma navigating_find:
  "findShortsElements (snd (app navigating)) = Inr ([1, 2, 3], snd (app navigating))"
  by (simp add: findShortsElements_def SHORTS_CONTAINERS_def safeQuerySelectorAll_def
      querySelectorAll_def navigating_facts(6) feed_engine_def)

lemma navigating_shorts:
  "processShorts (\<lparr>hiddenShorts = {1, 2}, sessionVisible = {}\<rparr>, snd (app navigating))
     = Inr (hideShort 3 (\<lparr>hiddenShorts = {1, 2}, sessionVisible = {}\<rparr>, snd (app navigating)))"
proof -
  have ns: "\<not> isShortsPage ''https://www.youtube.com/results?search_query=x''"
    by (simp add: isShortsPage_def)
  have s: "hideShort 1 (\<lparr>hiddenShorts = {1, 2}, sessionVisible = {}\<rparr>, snd (app navigating))
             = (\<lparr>hiddenShorts = {1, 2}, sessionVisible = {}\<rparr>, snd (app navigating))"
    "hideShort 2 (\<lparr>hiddenShorts = {1, 2}, sessionVisible = {}\<rparr>, snd (app navigating))
             = (\<lparr>hiddenShorts = {1, 2}, sessionVisible = {}\<rparr>, snd (app navigating))"
    by (simp_all add: hideShort_skip)
  have "fold hideShort [1, 2, 3] (\<lparr>hiddenShorts = {1, 2}, sessionVisible = {}\<rparr>, snd (app navigating))
      = hideShort 3 (\<lparr>hiddenShorts = {1, 2}, sessionVisible = {}\<rparr>, snd (app navigating))"
    unfolding fold_simps id_apply comp_apply s ..
  then show ?thesis
    by (simp add: processShorts_def navigating_facts(5) ns navigating_find del: fold_simps)
qed

lemma navigating_hide3:
  "fst (hideShort 3 (\<lparr>hiddenShorts = {1, 2}, sessionVisible = {}\<rparr>, snd (app navigating)))
     = \<lparr>hiddenShorts = {1, 2, 3}, sessionVisible = {}\<rparr>"
  "map_option style_display
     (nodes (snd (hideShort 3 (\<lparr>hiddenShorts = {1, 2}, sessionVisible = {}\<rparr>, snd (app navigating)))) 1)
     = Some ''''"
  "map_option style_display
     (nodes (snd (hideShort 3 (\<lparr>hiddenShorts = {1, 2}, sessionVisible = {}\<rparr>, snd (app navigating)))) 3)
     = Some ''none''"
  "map_option style_display
     (nodes (snd (hideShort 3 (\<lparr>hiddenShorts = {1, 2}, sessionVisible = {}\<rparr>, snd (app navigating)))) 5)
     = Some ''none''"
  by (simp_all add: navigating_def revealed_feed_def eval_defs insert_commute)

text \<open>The pass that the navigation schedules, once its 100 milliseconds have passed.\<close>

lemma pass_after_navigation:
  "app (elapse processPage 100 (handleNavigation navigating)) =
     (case hideShort 3 (\<lparr>hiddenShorts = {1, 2}, sessionVisible = {}\<rparr>, snd (app navigating)) of
        (sb, pg) \<Rightarrow>
          ((fst (app navigating))\<lparr>currentUrl := ''https://www.youtube.com/results?search_query=x'',
                shortsBlocker := sb, navigationButtonRemover := new_NavigationButtonRemover\<rparr>,
           console_log ''[YT Detox] Not on homepage, current URL: https://www.youtube.com/results?search_query=x'' pg))"
proof -
  have ns: "\<not> isShortsPage ''https://www.youtube.com/results?search_query=x''"
    by (simp add: isShortsPage_def)
  have nh: "\<not> isHomePage ''https://www.youtube.com/results?search_query=x''"
    by (simp add: isHomePage_def skip_def)
  have c: "extensionEnabled (fst (app navigating))" "\<not> isProcessing (fst (app navigating))"
    "scrollPreventer (fst (app navigating)) = new_ScrollPreventer"
    by (simp_all add: navigating_def new_YouTubeDetoxController_def)
  have u: "update (new_ScrollPreventer, snd (app navigating)) = (new_ScrollPreventer, snd (app navigating))"
    by (simp add: update_def navigating_facts(5) ns disable_def new_ScrollPreventer_def)
  have r: "removeNavigationButtons (new_NavigationButtonRemover, snd (app navigating))
             = Inr (new_NavigationButtonRemover, snd (app navigating))"
    by (simp add: removeNavigationButtons_def navigating_facts(5) ns)
  show ?thesis
    by (simp add: navigated_state elapse_def due_def processPage_def tryStages_def c u r
        navigating_shorts navigating_facts(5) nh Let_def case_prod_beta href_hideShort
        del: One_nat_def)
qed

text \<open>
  Claim C2 on the feed, where the code does not do what the claim says. The user had
  revealed node 1 for the session (it is in \<open>sessionVisible\<close>, shown, its overlay 5
  hidden); node 2 is suppressed. The URL changes and \<open>handleNavigation\<close> resets the
  session: \<open>sessionVisible\<close> is empty, but \<open>hiddenShorts\<close> still holds nodes 1 and 2, so
  node 1 did not return to the unseen state. \<open>hideShort\<close> on node 1 returns at its
  first guard: no overlay is allocated and the element is not hidden. The pass that
  the navigation schedules runs after 100 milliseconds and suppresses node 3, which
  it had not seen; node 1 stays shown and its overlay stays hidden, although the
  session in which it was revealed is over.
\<close>

theorem revealed_short_stays_visible_after_navigation:
  "shortsBlocker (fst (app navigating)) = \<lparr>hiddenShorts = {1, 2}, sessionVisible = {1}\<rparr>
   \<and> map_option style_display (nodes (snd (app navigating)) 1) = Some ''''
   \<and> href (snd (app navigating)) \<noteq> currentUrl (fst (app navigating))
   \<and> shortsBlocker (fst (app (handleNavigation navigating)))
       = \<lparr>hiddenShorts = {1, 2}, sessionVisible = {}\<rparr>
   \<and> timerTable (handleNavigation navigating) = [(0, 100)]
   \<and> hideShort 1 (shortsBlocker (fst (app (handleNavigation navigating))),
                   snd (app (handleNavigation navigating)))
       = (shortsBlocker (fst (app (handleNavigation navigating))),
          snd (app (handleNavigation navigating)))
   \<and> map_option style_display (nodes (snd (app (handleNavigation navigating))) 1) = Some ''''
   \<and> fresh (snd (app (handleNavigation navigating))) = 7
   \<and> shortsBlocker (fst (app (elapse processPage 100 (handleNavigation navigating))))
       = \<lparr>hiddenShorts = {1, 2, 3}, sessionVisible = {}\<rparr>
   \<and> map (\<lambda>x. map_option style_display
                 (nodes (snd (app (elapse processPage 100 (handleNavigation navigating)))) x))
         [1, 5, 3] = [Some '''', Some ''none'', Some ''none'']"
proof -
  have c: "shortsBlocker (fst (app (handleNavigation navigating)))
             = \<lparr>hiddenShorts = {1, 2}, sessionVisible = {}\<rparr>"
    "timerTable (handleNavigation navigating) = [(0, 100)]"
    "snd (app (handleNavigation navigating)) = snd (app navigating)"
    by (simp_all add: navigated_state)
  have f: "fresh (snd (app navigating)) = 7"
    by (simp add: navigating_def revealed_feed_def eval_defs)
  have k: "hideShort 1 (\<lparr>hiddenShorts = {1, 2}, sessionVisible = {}\<rparr>, snd (app navigating))
             = (\<lparr>hiddenShorts = {1, 2}, sessionVisible = {}\<rparr>, snd (app navigating))"
    by (simp add: hideShort_skip)
  have p: "shortsBlocker (fst (app (elapse processPage 100 (handleNavigation navigating))))
       = \<lparr>hiddenShorts = {1, 2, 3}, sessionVisible = {}\<rparr>
   \<and> map (\<lambda>x. map_option style_display
                 (nodes (snd (app (elapse processPage 100 (handleNavigation navigating)))) x))
         [1, 5, 3] = [Some '''', Some ''none'', Some ''none'']"
    using navigating_hide3
    by (simp add: pass_after_navigation case_prod_beta console_log_def del: One_nat_def)
  show ?thesis
    using navigating_facts(1,2,3) p
    by (simp add: c f k del: One_nat_def)
qed

end
